theory Spec2Isabelle
  imports Complex_Main "HOL-Library.Char_ord" "HOL-Library.List_Lexorder" "HOL-Library.Multiset"
    "HOL-Library.Word"
begin

section \<open>Poros Protocol: identity, ranking and orchestration\<close>

text \<open>
  A shallow embedding of \<^verbatim>\<open>backend/app/identity.py\<close>, \<^verbatim>\<open>backend/app/identity_api.py\<close>,
  \<^verbatim>\<open>backend/app/ranking.py\<close>, \<^verbatim>\<open>backend/app/orchestrator.py\<close> and the parts of
  \<^verbatim>\<open>backend/app/models.py\<close> they use.

  Conventions.
  \<^item> A Python \<^verbatim>\<open>str\<close> is a \<open>string\<close>; a \<open>char\<close> stands for the code point of the same
    number (U+0000 to U+00FF).
  \<^item> Python \<^verbatim>\<open>bytes\<close> are lists of 8-bit words.
  \<^item> A Python \<^verbatim>\<open>float\<close> is a \<open>real\<close>: rounding is not modelled.
  \<^item> An exception is a value \<open>Inl e\<close> of the sum type \<open>exn + 'a\<close>.
  \<^item> The text that \<^verbatim>\<open>print\<close> writes is not modelled, only whether writing succeeds.
\<close>

subsection \<open>Values and exceptions\<close>

type_synonym byte = "8 word"

datatype exn =
    TypeError
  | ValueError
  | AttributeError
  | KeyError
  | binascii_Error
  | InvalidSignature
  | HTTPException nat
  | DatabaseError
  | OSError

text \<open>
  The state of standard output, as a call of \<^verbatim>\<open>print\<close> meets it: \<open>None\<close> when the text is
  written, \<open>Some e\<close> when writing raises \<open>e\<close> (a closed stream, a broken pipe).
\<close>

type_synonym stdout = "exn option"

definition print :: "stdout \<Rightarrow> exn + unit" where
  "print out = (case out of None \<Rightarrow> Inr () | Some e \<Rightarrow> Inl e)"

text \<open>
  The values a \<^verbatim>\<open>Dict[str, Any]\<close> holds. A dictionary is an association list in insertion
  order (its keys are distinct in Python). \<open>JFloat\<close> carries the text that \<^verbatim>\<open>json\<close>
  writes for the float. \<open>JOther hashable\<close> is any Python object that \<^verbatim>\<open>json\<close> cannot serialise (bytes, a
  set, an instance of a class); the flag says whether it is hashable.
\<close>

datatype json =
    JNull
  | JBool bool
  | JInt int
  | JFloat string
  | JStr string
  | JList "json list"
  | JDict "(string \<times> json) list"
  | JOther bool

text \<open>\<^verbatim>\<open>d.get(k, default)\<close>\<close>

definition dict_get :: "(string \<times> json) list \<Rightarrow> string \<Rightarrow> json \<Rightarrow> json" where
  "dict_get d k dflt = (case map_of d k of Some v \<Rightarrow> v | None \<Rightarrow> dflt)"

subsection \<open>The directory record (models.py)\<close>

text \<open>
  \<^verbatim>\<open>RegisteredAgent\<close>, with the columns that ranking and orchestration read or write
  (the row id, the owner, the transport and the timestamps are left out).
\<close>

record RegisteredAgent =
  agent_id :: string
  agent_card :: "(string \<times> json) list"
  name :: string
  description :: string
  url :: string
  skills_tags :: "string list"
  is_active :: bool
  total_calls :: int
  success_rate :: real
  avg_latency_ms :: real

subsection \<open>String helpers of Python\<close>

text \<open>\<^verbatim>\<open>str.isspace\<close> on one code point below U+0100.\<close>

definition is_space :: "char \<Rightarrow> bool" where
  "is_space c = ((of_char c :: nat) \<in> {9, 10, 11, 12, 13, 28, 29, 30, 31, 32, 133, 160})"

text \<open>\<^verbatim>\<open>str.lower\<close>: A to Z, and the Latin-1 capitals U+00C0 to U+00DE without U+00D7.\<close>

definition lower_char :: "char \<Rightarrow> char" where
  "lower_char c =
     (let n = (of_char c :: nat)
      in if (65 \<le> n \<and> n \<le> 90) \<or> (192 \<le> n \<and> n \<le> 222 \<and> n \<noteq> 215) then char_of (n + 32) else c)"

definition lower :: "string \<Rightarrow> string" where
  "lower s = map lower_char s"

text \<open>
  \<^verbatim>\<open>str.split()\<close> with no argument: the maximal runs of non-space characters. The first
  argument is the word read so far.
\<close>

fun split_from :: "string \<Rightarrow> string \<Rightarrow> string list" where
  "split_from w [] = (if w = [] then [] else [w])"
| "split_from w (c # cs) =
     (if is_space c then (if w = [] then split_from [] cs else w # split_from [] cs)
      else split_from (w @ [c]) cs)"

definition split :: "string \<Rightarrow> string list" where
  "split s = split_from [] s"

text \<open>\<^verbatim>\<open>s.startswith(p)\<close> and \<^verbatim>\<open>w in s\<close> on strings.\<close>

fun startswith :: "string \<Rightarrow> string \<Rightarrow> bool" where
  "startswith s [] = True"
| "startswith [] (p # ps) = False"
| "startswith (c # cs) (p # ps) = (c = p \<and> startswith cs ps)"

fun contains :: "string \<Rightarrow> string \<Rightarrow> bool" where
  "contains [] w = (w = [])"
| "contains (c # cs) w = (startswith (c # cs) w \<or> contains cs w)"

subsection \<open>Ranking strategies (ranking.py)\<close>

text \<open>\<^verbatim>\<open>PerformanceRanking.score\<close>\<close>

definition PerformanceRanking_score :: "RegisteredAgent \<Rightarrow> real" where
  "PerformanceRanking_score agent =
     (let score = 0 + success_rate agent * 60;
          score = (if avg_latency_ms agent > 0
                   then score + max 0 (30 - (avg_latency_ms agent / 5000) * 30)
                   else score);
          score = (if total_calls agent > 0
                   then score + min 10 (log 10 (real_of_int (total_calls agent + 1)) * 2)
                   else score)
      in score)"

text \<open>
  \<^verbatim>\<open>SemanticRanking\<close>. The constructor tries to import sentence-transformers; the outcome
  is the backend: \<open>None\<close> when the import fails (keyword matching), \<open>Some sim\<close> when
  it succeeds, \<open>sim query description\<close> being the cosine similarity the model computes.
  When the import fails the constructor prints a notice inside its \<^verbatim>\<open>except\<close> clause; a
  \<^verbatim>\<open>print\<close> that raises leaves the constructor.
\<close>

type_synonym semantic_backend = "(string \<Rightarrow> string \<Rightarrow> real) option"

definition SemanticRanking_init :: "stdout \<Rightarrow> semantic_backend \<Rightarrow> exn + unit" where
  "SemanticRanking_init out backend =
     (case backend of
        Some sim \<Rightarrow> Inr ()
      | None \<Rightarrow> print out)"

definition score_with_keywords :: "RegisteredAgent \<Rightarrow> string \<Rightarrow> real" where
  "score_with_keywords agent query =
     (let query_lower = lower query;
          desc_lower = lower (description agent);
          name_lower = lower (name agent);
          query_words = set (split query_lower);
          desc_words = set (split desc_lower);
          matching_words = query_words \<inter> desc_words;
          score = (if card query_words > 0
                   then 0 + (real (card matching_words) / real (card query_words)) * 70
                   else 0);
          score = (if \<exists>word \<in> query_words. contains name_lower word then score + 30 else score)
      in min score 100)"

definition score_with_embeddings ::
  "(string \<Rightarrow> string \<Rightarrow> real) \<Rightarrow> RegisteredAgent \<Rightarrow> string \<Rightarrow> real" where
  "score_with_embeddings sim agent query = sim query (description agent) * 100"

definition SemanticRanking_score :: "semantic_backend \<Rightarrow> RegisteredAgent \<Rightarrow> string \<Rightarrow> real" where
  "SemanticRanking_score backend agent query =
     (case backend of
        Some sim \<Rightarrow> score_with_embeddings sim agent query
      | None \<Rightarrow> score_with_keywords agent query)"

text \<open>
  \<^verbatim>\<open>RevenueRanking.score\<close>. \<^verbatim>\<open>agent_card.get("metadata", {}).get("tier", "free")\<close> raises
  AttributeError when the metadata entry is not a dictionary, and
  \<^verbatim>\<open>tier_scores.get(tier, 0)\<close> raises TypeError when the tier is not hashable.
\<close>

definition tier_scores :: "string \<Rightarrow> real option" where
  "tier_scores = map_of [(''enterprise'', 100), (''premium'', 70), (''pro'', 40), (''free'', 0)]"

definition hashable :: "json \<Rightarrow> bool" where
  "hashable v = (case v of JList _ \<Rightarrow> False | JDict _ \<Rightarrow> False | JOther h \<Rightarrow> h | _ \<Rightarrow> True)"

definition tier_scores_get :: "json \<Rightarrow> exn + real" where
  "tier_scores_get tier =
     (if \<not> hashable tier then Inl TypeError
      else case tier of
             JStr s \<Rightarrow> (case tier_scores s of Some v \<Rightarrow> Inr v | None \<Rightarrow> Inr 0)
           | _ \<Rightarrow> Inr 0)"

definition RevenueRanking_score :: "RegisteredAgent \<Rightarrow> exn + real" where
  "RevenueRanking_score agent =
     (case dict_get (agent_card agent) ''metadata'' (JDict []) of
        JDict metadata \<Rightarrow>
          (case tier_scores_get (dict_get metadata ''tier'' (JStr ''free'')) of
             Inl e \<Rightarrow> Inl e
           | Inr tier_score \<Rightarrow> Inr (0 + tier_score + success_rate agent * 10))
      | _ \<Rightarrow> Inl AttributeError)"

text \<open>
  \<^verbatim>\<open>HybridRanking\<close>: the constructor (it builds the three other rankers), the skill
  match, the freshness and the weighted sum.
\<close>

definition HybridRanking_init :: "stdout \<Rightarrow> semantic_backend \<Rightarrow> exn + unit" where
  "HybridRanking_init out backend = SemanticRanking_init out backend"

definition skill_match_score :: "RegisteredAgent \<Rightarrow> string list option \<Rightarrow> real" where
  "skill_match_score agent skill_tags =
     (case skill_tags of
        None \<Rightarrow> 50
      | Some tags \<Rightarrow>
          if tags = [] then 50
          else let agent_tags = set (skills_tags agent);
                   query_tags = set tags
               in if card query_tags = 0 then 50
                  else let intersection = agent_tags \<inter> query_tags;
                           union = agent_tags \<union> query_tags
                       in if card union = 0 then 0
                          else (real (card intersection) / real (card union)) * 100)"

definition freshness_score :: "RegisteredAgent \<Rightarrow> real" where
  "freshness_score agent = 50"

definition HybridRanking_score ::
  "semantic_backend \<Rightarrow> RegisteredAgent \<Rightarrow> string \<Rightarrow> string list option \<Rightarrow> exn + real" where
  "HybridRanking_score backend agent query skill_tags =
     (let skill_score = skill_match_score agent skill_tags;
          performance_score = PerformanceRanking_score agent;
          semantic_score = SemanticRanking_score backend agent query
      in case RevenueRanking_score agent of
           Inl e \<Rightarrow> Inl e
         | Inr revenue_score \<Rightarrow>
             Inr (skill_score * 0.40 + performance_score * 0.25 + semantic_score * 0.20
                  + revenue_score * 0.10 + freshness_score agent * 0.05))"

text \<open>
  \<^verbatim>\<open>rank_agents\<close>. The strategy table maps four names to rankers;
  \<^verbatim>\<open>strategies.get(strategy, HybridRanking())\<close> picks one. Building the table constructs a
  \<^verbatim>\<open>SemanticRanking\<close> and a \<^verbatim>\<open>HybridRanking\<close>, and the default argument constructs
  another \<^verbatim>\<open>HybridRanking\<close>, in this order and on every call.
\<close>

datatype ranker = PerformanceRanking | SemanticRanking | RevenueRanking | HybridRanking

definition strategies :: "string \<Rightarrow> ranker option" where
  "strategies = map_of [(''performance'', PerformanceRanking), (''semantic'', SemanticRanking),
                        (''revenue'', RevenueRanking), (''hybrid'', HybridRanking)]"

definition strategies_get :: "string \<Rightarrow> ranker" where
  "strategies_get strategy = (case strategies strategy of Some r \<Rightarrow> r | None \<Rightarrow> HybridRanking)"

fun ranker_score ::
  "semantic_backend \<Rightarrow> ranker \<Rightarrow> RegisteredAgent \<Rightarrow> string \<Rightarrow> string list option \<Rightarrow> exn + real" where
  "ranker_score backend PerformanceRanking agent query skill_tags = Inr (PerformanceRanking_score agent)"
| "ranker_score backend SemanticRanking agent query skill_tags = Inr (SemanticRanking_score backend agent query)"
| "ranker_score backend RevenueRanking agent query skill_tags = RevenueRanking_score agent"
| "ranker_score backend HybridRanking agent query skill_tags = HybridRanking_score backend agent query skill_tags"

text \<open>The scoring loop: the first score that raises ends the call.\<close>

fun score_all ::
  "(RegisteredAgent \<Rightarrow> exn + real) \<Rightarrow> RegisteredAgent list \<Rightarrow> exn + (RegisteredAgent \<times> real) list" where
  "score_all f [] = Inr []"
| "score_all f (agent # agents) =
     (case f agent of
        Inl e \<Rightarrow> Inl e
      | Inr score \<Rightarrow>
          (case score_all f agents of
             Inl e \<Rightarrow> Inl e
           | Inr scored \<Rightarrow> Inr ((agent, score) # scored)))"

text \<open>
  \<^verbatim>\<open>scored_agents.sort(key=lambda x: x[1], reverse=True)\<close>: a stable sort, descending by
  score; agents of equal score keep their order.
\<close>

definition sort_descending :: "(RegisteredAgent \<times> real) list \<Rightarrow> (RegisteredAgent \<times> real) list" where
  "sort_descending scored_agents = sort_key (\<lambda>x. - snd x) scored_agents"

definition construct_rankers :: "stdout \<Rightarrow> semantic_backend \<Rightarrow> exn + unit" where
  "construct_rankers out backend =
     (case SemanticRanking_init out backend of
        Inl e \<Rightarrow> Inl e
      | Inr u \<Rightarrow>
          (case HybridRanking_init out backend of
             Inl e \<Rightarrow> Inl e
           | Inr u \<Rightarrow> HybridRanking_init out backend))"

definition rank_agents ::
  "stdout \<Rightarrow> semantic_backend \<Rightarrow> RegisteredAgent list \<Rightarrow> string \<Rightarrow> string list option \<Rightarrow> string
     \<Rightarrow> exn + RegisteredAgent list" where
  "rank_agents out backend agents query skill_tags strategy =
     (case construct_rankers out backend of
        Inl e \<Rightarrow> Inl e
      | Inr u \<Rightarrow>
          (let ranker = strategies_get strategy
           in (case score_all (\<lambda>agent. ranker_score backend ranker agent query skill_tags) agents of
                 Inl e \<Rightarrow> Inl e
               | Inr scored_agents \<Rightarrow> Inr (map fst (sort_descending scored_agents)))))"

subsection \<open>Requests, results and the directory state (models.py, orchestrator.py)\<close>

text \<open>\<^verbatim>\<open>OrchestrateRequest\<close>; pydantic admits it when \<open>max_agents \<le> 10\<close>.\<close>

record OrchestrateRequest =
  query :: string
  skill_tags :: "string list option"
  prefer_agent_ids :: "string list option"
  max_agents :: int

definition valid_request :: "OrchestrateRequest \<Rightarrow> bool" where
  "valid_request request = (max_agents request \<le> 10)"

text \<open>
  A per-agent result is a dictionary whose values are strings, floats or JSON data:
  \<^verbatim>\<open>{"agent_id": ..., "agent_name": ..., "status": ..., "latency_ms": ..., "result": ...}\<close>.
\<close>

datatype field = S string | F real | J json

type_synonym result = "(string \<times> field) list"

text \<open>\<^verbatim>\<open>result.get("status") == "success"\<close> and \<^verbatim>\<open>result.get("latency_ms", 0)\<close>\<close>

definition status_is_success :: "result \<Rightarrow> bool" where
  "status_is_success r = (map_of r ''status'' = Some (S ''success''))"

definition get_latency_ms :: "result \<Rightarrow> real" where
  "get_latency_ms r = (case map_of r ''latency_ms'' of Some (F x) \<Rightarrow> x | _ \<Rightarrow> 0)"

record OrchestrationLog =
  log_client_query :: "string \<times> string list option"
  log_skill_filter :: "string option"
  log_selected_agents :: "string list"
  log_results :: "result list"
  log_success :: bool
  log_latency_ms :: real

record OrchestrateResponse =
  resp_query :: string
  resp_selected_agents :: "json list"
  resp_results :: "result list"
  resp_summary :: string
  resp_latency_ms :: real

text \<open>The tables the session reads and writes.\<close>

record database =
  agents :: "RegisteredAgent list"
  logs :: "OrchestrationLog list"

text \<open>
  What a request meets outside the program. \<open>http_post url payload\<close> is the outcome of
  the POST made inside \<^verbatim>\<open>call_agent_http\<close>: \<open>Reply data latency\<close> when the agent answers
  2xx with a JSON body, \<open>latency\<close> being the measured milliseconds; \<open>Raises msg\<close> when
  anything in the \<^verbatim>\<open>try\<close> block raises (connection error, timeout, non-2xx status
  through \<^verbatim>\<open>raise_for_status\<close>, a body that is not JSON), \<open>msg\<close> being \<^verbatim>\<open>str(e)\<close>.
  \<open>sys_stdout\<close> is the state of standard output.
  \<open>commit_ok n\<close> says whether the \<open>n\<close>-th \<^verbatim>\<open>session.commit()\<close> of the request succeeds.
  \<open>elapsed_ms\<close> is the wall-clock time read for the total latency.
\<close>

datatype http_outcome = Reply json real | Raises string

record world =
  http_post :: "string \<Rightarrow> json \<Rightarrow> http_outcome"
  sys_stdout :: stdout
  sentence_transformers :: semantic_backend
  commit_ok :: "nat \<Rightarrow> bool"
  elapsed_ms :: real

subsection \<open>Calling one agent (orchestrator.py)\<close>

definition endswith :: "string \<Rightarrow> string \<Rightarrow> bool" where
  "endswith s suffix = startswith (rev s) (rev suffix)"

definition query_url :: "RegisteredAgent \<Rightarrow> string" where
  "query_url agent = (if \<not> endswith (url agent) ''/query'' then url agent @ ''/query'' else url agent)"

definition call_agent_http :: "world \<Rightarrow> RegisteredAgent \<Rightarrow> string \<Rightarrow> result" where
  "call_agent_http w agent q =
     (let payload = JDict [(''query'', JStr q)]
      in case http_post w (query_url agent) payload of
           Reply data latency \<Rightarrow>
             [(''agent_id'', S (agent_id agent)), (''agent_name'', S (name agent)),
              (''status'', S ''success''), (''latency_ms'', F latency), (''result'', J data)]
         | Raises msg \<Rightarrow>
             [(''agent_id'', S (agent_id agent)), (''agent_name'', S (name agent)),
              (''status'', S ''error''), (''error'', S msg), (''latency_ms'', F 0)])"

text \<open>
  \<^verbatim>\<open>asyncio.gather(*tasks, return_exceptions=True)\<close> yields, per task, the dictionary it
  returned or the exception it raised (\<open>Inl\<close>, with its text); the loop after it turns
  an exception into an error dictionary.
\<close>

definition format_result :: "string + result \<Rightarrow> result" where
  "format_result r =
     (case r of
        Inl msg \<Rightarrow> [(''status'', S ''error''), (''error'', S msg)]
      | Inr d \<Rightarrow> d)"

subsection \<open>Selection (orchestrator.py, step 3)\<close>

text \<open>\<^verbatim>\<open>xs[:n]\<close> for a Python int \<open>n\<close>: a negative \<open>n\<close> counts from the end.\<close>

definition slice_to :: "int \<Rightarrow> 'a list \<Rightarrow> 'a list" where
  "slice_to n xs = (if 0 \<le> n then take (nat n) xs else take (nat (int (length xs) + n)) xs)"

definition select_agents ::
  "OrchestrateRequest \<Rightarrow> RegisteredAgent list \<Rightarrow> RegisteredAgent list \<Rightarrow> RegisteredAgent list" where
  "select_agents request matching_agents ranked_agents =
     (let selected = slice_to (max_agents request) ranked_agents
      in case prefer_agent_ids request of
           None \<Rightarrow> selected
         | Some ids \<Rightarrow>
             if ids = [] then selected
             else let preferred = filter (\<lambda>a. agent_id a \<in> set ids) matching_agents;
                      selected = preferred @ filter (\<lambda>a. a \<notin> set preferred) selected
                  in slice_to (max_agents request) selected)"

subsection \<open>Metrics, log and response (orchestrator.py, steps 5 to 7)\<close>

definition update_metrics :: "RegisteredAgent \<Rightarrow> result \<Rightarrow> RegisteredAgent" where
  "update_metrics agent r =
     (let success = (if status_is_success r then 1 else 0) :: real
      in agent\<lparr>total_calls := total_calls agent + 1,
               success_rate := (success_rate agent * 0.9) + (success * 0.1),
               avg_latency_ms := (if get_latency_ms r > 0
                                  then (avg_latency_ms agent * 0.9) + (get_latency_ms r * 0.1)
                                  else avg_latency_ms agent)\<rparr>)"

text \<open>
  \<^verbatim>\<open>session.commit()\<close> writes the changed rows: a row is replaced by the changed object of
  the same \<^verbatim>\<open>agent_id\<close> (a unique column).
\<close>

definition write_back :: "RegisteredAgent list \<Rightarrow> RegisteredAgent list \<Rightarrow> RegisteredAgent list" where
  "write_back changed rows =
     map (\<lambda>row. case find (\<lambda>a. agent_id a = agent_id row) changed of
                   Some a \<Rightarrow> a
                 | None \<Rightarrow> row) rows"

text \<open>\<^verbatim>\<open>str(n)\<close> for an int, and \<^verbatim>\<open>sep.join(parts)\<close>.\<close>

definition digit_char :: "nat \<Rightarrow> char" where
  "digit_char d = char_of (48 + d)"

function str_nat :: "nat \<Rightarrow> string" where
  "str_nat n = (if n < 10 then [digit_char n] else str_nat (n div 10) @ [digit_char (n mod 10)])"
  by pat_completeness auto
termination
  by (relation "measure id") auto

declare str_nat.simps [simp del]

definition str_int :: "int \<Rightarrow> string" where
  "str_int i = (if i < 0 then ''-'' @ str_nat (nat (- i)) else str_nat (nat i))"

fun join :: "string \<Rightarrow> string list \<Rightarrow> string" where
  "join sep [] = []"
| "join sep [x] = x"
| "join sep (x # y # ys) = x @ sep @ join sep (y # ys)"

text \<open>
  \<^verbatim>\<open>_generate_summary\<close>. A result built by \<^verbatim>\<open>call_agent_http\<close> or by the loop after
  \<^verbatim>\<open>gather\<close> has no key \<^verbatim>\<open>"artifacts"\<close>, so \<^verbatim>\<open>result.get("artifacts", [])\<close> is the empty
  list and the inner loop adds no line.
\<close>

definition get_agent_name :: "result \<Rightarrow> string" where
  "get_agent_name r = (case map_of r ''agent_name'' of Some (S n) \<Rightarrow> n | _ \<Rightarrow> ''Unknown'')"

definition generate_summary :: "string \<Rightarrow> result list \<Rightarrow> string" where
  "generate_summary q rs =
     (let successful = filter status_is_success rs
      in if successful = [] then ''No agents successfully responded to your query.''
         else let summary_parts =
                    [''Query: '' @ q @ [CHR 0x0A],
                     ''Agents responded: '' @ str_nat (length successful) @ ''/''
                        @ str_nat (length rs) @ [CHR 0x0A]]
                    @ map (\<lambda>r. [CHR 0x0A] @ get_agent_name r @ '':'') successful
              in join [CHR 0x0A] summary_parts)"

text \<open>
  \<^verbatim>\<open>[skill["name"] for skill in a.agent_card.get("skills", [])]\<close>: subscripting anything but
  a dictionary with a string raises TypeError, a dictionary without the key raises
  KeyError, and iterating a string or a dictionary yields strings.
\<close>

fun skill_name :: "json \<Rightarrow> exn + json" where
  "skill_name (JDict d) = (case map_of d ''name'' of Some v \<Rightarrow> Inr v | None \<Rightarrow> Inl KeyError)"
| "skill_name _ = Inl TypeError"

fun skill_names_of :: "json list \<Rightarrow> exn + json list" where
  "skill_names_of [] = Inr []"
| "skill_names_of (skill # skills) =
     (case skill_name skill of
        Inl e \<Rightarrow> Inl e
      | Inr n \<Rightarrow> (case skill_names_of skills of Inl e \<Rightarrow> Inl e | Inr ns \<Rightarrow> Inr (n # ns)))"

definition skill_names :: "RegisteredAgent \<Rightarrow> exn + json list" where
  "skill_names a =
     (case dict_get (agent_card a) ''skills'' (JList []) of
        JList skills \<Rightarrow> skill_names_of skills
      | JStr s \<Rightarrow> (if s = [] then Inr [] else Inl TypeError)
      | JDict d \<Rightarrow> (if d = [] then Inr [] else Inl TypeError)
      | _ \<Rightarrow> Inl TypeError)"

fun selected_agents_info :: "RegisteredAgent list \<Rightarrow> exn + json list" where
  "selected_agents_info [] = Inr []"
| "selected_agents_info (a # as) =
     (case skill_names a of
        Inl e \<Rightarrow> Inl e
      | Inr ns \<Rightarrow>
          (case selected_agents_info as of
             Inl e \<Rightarrow> Inl e
           | Inr infos \<Rightarrow>
               Inr (JDict [(''agent_id'', JStr (agent_id a)), (''name'', JStr (name a)),
                           (''url'', JStr (url a)), (''skills'', JList ns)] # infos)))"

subsection \<open>The orchestration endpoint (orchestrator.py)\<close>

text \<open>
  \<^verbatim>\<open>orchestrate\<close> returns the response or the exception that leaves the handler, and the
  tables as they are afterwards.
\<close>

definition discover :: "database \<Rightarrow> OrchestrateRequest \<Rightarrow> RegisteredAgent list" where
  "discover db request =
     (let all_agents = filter is_active (agents db)
      in case skill_tags request of
           None \<Rightarrow> all_agents
         | Some tags \<Rightarrow>
             if tags = [] then all_agents
             else filter (\<lambda>a. \<exists>tag \<in> set tags. tag \<in> set (skills_tags a)) all_agents)"

definition dispatch :: "world \<Rightarrow> OrchestrateRequest \<Rightarrow> RegisteredAgent list \<Rightarrow> result list" where
  "dispatch w request selected_agents =
     (let results = map (\<lambda>agent. Inr (call_agent_http w agent (query request))) selected_agents
      in map format_result results)"

definition make_log ::
  "OrchestrateRequest \<Rightarrow> RegisteredAgent list \<Rightarrow> result list \<Rightarrow> real \<Rightarrow> OrchestrationLog" where
  "make_log request selected_agents formatted_results total_latency =
     \<lparr>log_client_query = (query request, skill_tags request),
      log_skill_filter = (case skill_tags request of
                            None \<Rightarrow> None
                          | Some tags \<Rightarrow> if tags = [] then None else Some (join '','' tags)),
      log_selected_agents = map agent_id selected_agents,
      log_results = formatted_results,
      log_success = list_all status_is_success formatted_results,
      log_latency_ms = total_latency\<rparr>"

text \<open>Steps 1 to 3: discover, rank with the default strategy, select.\<close>

definition select_phase :: "world \<Rightarrow> database \<Rightarrow> OrchestrateRequest \<Rightarrow> exn + RegisteredAgent list" where
  "select_phase w db request =
     (let matching_agents = discover db request
      in if matching_agents = [] then Inl (HTTPException 404)
         else
           case rank_agents (sys_stdout w) (sentence_transformers w) matching_agents (query request)
                  (skill_tags request) ''hybrid'' of
             Inl e \<Rightarrow> Inl e
           | Inr ranked_agents \<Rightarrow> Inr (select_agents request matching_agents ranked_agents))"

text \<open>Step 7: the response object.\<close>

definition respond ::
  "OrchestrateRequest \<Rightarrow> RegisteredAgent list \<Rightarrow> result list \<Rightarrow> real \<Rightarrow> exn + OrchestrateResponse" where
  "respond request selected_agents formatted_results total_latency =
     (case selected_agents_info selected_agents of
        Inl e \<Rightarrow> Inl e
      | Inr infos \<Rightarrow>
          Inr \<lparr>resp_query = query request,
               resp_selected_agents = infos,
               resp_results = formatted_results,
               resp_summary = generate_summary (query request) formatted_results,
               resp_latency_ms = total_latency\<rparr>)"

text \<open>
  Steps 4 to 7, on the selected agents. The agent objects are changed in place, so the
  response is built from the changed objects.
\<close>

definition serve ::
  "world \<Rightarrow> database \<Rightarrow> OrchestrateRequest \<Rightarrow> RegisteredAgent list
     \<Rightarrow> (exn + OrchestrateResponse) \<times> database" where
  "serve w db request selected_agents =
     (let formatted_results = dispatch w request selected_agents;
          changed = map2 update_metrics selected_agents formatted_results
      in if \<not> commit_ok w 0 then (Inl DatabaseError, db)
         else
           let db1 = db\<lparr>agents := write_back changed (agents db)\<rparr>;
               total_latency = elapsed_ms w;
               log = make_log request changed formatted_results total_latency
           in if \<not> commit_ok w 1 then (Inl DatabaseError, db1)
              else (respond request changed formatted_results total_latency,
                    db1\<lparr>logs := logs db1 @ [log]\<rparr>))"

definition orchestrate ::
  "world \<Rightarrow> database \<Rightarrow> OrchestrateRequest \<Rightarrow> (exn + OrchestrateResponse) \<times> database" where
  "orchestrate w db request =
     (case select_phase w db request of
        Inl e \<Rightarrow> (Inl e, db)
      | Inr selected_agents \<Rightarrow> serve w db request selected_agents)"

subsection \<open>Base64 (the standard library's base64 and binascii)\<close>

text \<open>
  The alphabet of RFC 4648, the value of a digit and its inverse.
\<close>

definition b64_alphabet :: string where
  "b64_alphabet = ''ABCDEFGHIJKLMNOPQRSTUVWXYZabcdefghijklmnopqrstuvwxyz0123456789+/''"

definition b64_char :: "nat \<Rightarrow> char" where
  "b64_char n = b64_alphabet ! n"

fun index_of :: "'a \<Rightarrow> 'a list \<Rightarrow> nat option" where
  "index_of c [] = None"
| "index_of c (x # xs) = (if c = x then Some 0 else map_option Suc (index_of c xs))"

definition b64_index :: "char \<Rightarrow> nat option" where
  "b64_index c = index_of c b64_alphabet"

text \<open>
  \<^verbatim>\<open>binascii.b2a_base64(data, newline=False)\<close>: three bytes give four digits; a last group
  of one or two bytes is padded with \<^verbatim>\<open>=\<close>.
\<close>

fun b2a_base64 :: "byte list \<Rightarrow> string" where
  "b2a_base64 [] = []"
| "b2a_base64 [a] =
     [b64_char (unat a div 4), b64_char (unat a mod 4 * 16), CHR ''='', CHR ''='']"
| "b2a_base64 [a, b] =
     [b64_char (unat a div 4), b64_char (unat a mod 4 * 16 + unat b div 16),
      b64_char (unat b mod 16 * 4), CHR ''='']"
| "b2a_base64 (a # b # c # rest) =
     [b64_char (unat a div 4), b64_char (unat a mod 4 * 16 + unat b div 16),
      b64_char (unat b mod 16 * 4 + unat c div 64), b64_char (unat c mod 64)]
     @ b2a_base64 rest"

text \<open>
  \<^verbatim>\<open>binascii.a2b_base64(data)\<close> in its default, lenient mode, as the loop of CPython reads
  the input: \<open>quad_pos\<close> is the position in the current group of four digits,
  \<open>leftchar\<close> the bits not yet written, \<open>pads\<close> the padding characters seen since
  the last digit. A character outside the alphabet is skipped; padding that completes a
  group ends the input; an incomplete group at the end raises \<^verbatim>\<open>binascii.Error\<close>.
\<close>

definition emit :: "byte \<Rightarrow> exn + byte list \<Rightarrow> exn + byte list" where
  "emit b r = (case r of Inl e \<Rightarrow> Inl e | Inr bs \<Rightarrow> Inr (b # bs))"

fun a2b_base64_from :: "nat \<Rightarrow> nat \<Rightarrow> nat \<Rightarrow> string \<Rightarrow> exn + byte list" where
  "a2b_base64_from quad_pos leftchar pads [] =
     (if quad_pos \<noteq> 0 then Inl binascii_Error else Inr [])"
| "a2b_base64_from quad_pos leftchar pads (this_ch # rest) =
     (if this_ch = CHR ''='' then
        (if quad_pos \<ge> 2 \<and> quad_pos + (pads + 1) \<ge> 4 then Inr []
         else a2b_base64_from quad_pos leftchar (if quad_pos \<ge> 2 then pads + 1 else pads) rest)
      else
        case b64_index this_ch of
          None \<Rightarrow> a2b_base64_from quad_pos leftchar pads rest
        | Some v \<Rightarrow>
            if quad_pos = 0 then a2b_base64_from 1 v 0 rest
            else if quad_pos = 1 then
              emit (of_nat (leftchar * 4 + v div 16)) (a2b_base64_from 2 (v mod 16) 0 rest)
            else if quad_pos = 2 then
              emit (of_nat (leftchar * 16 + v div 4)) (a2b_base64_from 3 (v mod 4) 0 rest)
            else
              emit (of_nat (leftchar * 64 + v)) (a2b_base64_from 0 0 0 rest))"

definition a2b_base64 :: "string \<Rightarrow> exn + byte list" where
  "a2b_base64 s = a2b_base64_from 0 0 0 s"

text \<open>
  The functions of \<^verbatim>\<open>base64\<close>. A \<^verbatim>\<open>str\<close> argument of a decoder is first encoded as
  ASCII, which raises ValueError on any other character. The URL-safe variants write
  \<^verbatim>\<open>-\<close> and \<^verbatim>\<open>_\<close> for \<^verbatim>\<open>+\<close> and \<^verbatim>\<open>/\<close>.
\<close>

definition is_ascii :: "string \<Rightarrow> bool" where
  "is_ascii s = (\<forall>c \<in> set s. (of_char c :: nat) < 128)"

definition b64encode :: "byte list \<Rightarrow> string" where
  "b64encode s = b2a_base64 s"

definition b64decode :: "string \<Rightarrow> exn + byte list" where
  "b64decode s = (if \<not> is_ascii s then Inl ValueError else a2b_base64 s)"

definition urlsafe_encode_translation :: "char \<Rightarrow> char" where
  "urlsafe_encode_translation c =
     (if c = CHR ''+'' then CHR ''-'' else if c = CHR ''/'' then CHR ''_'' else c)"

definition urlsafe_decode_translation :: "char \<Rightarrow> char" where
  "urlsafe_decode_translation c =
     (if c = CHR ''-'' then CHR ''+'' else if c = CHR ''_'' then CHR ''/'' else c)"

definition urlsafe_b64encode :: "byte list \<Rightarrow> string" where
  "urlsafe_b64encode s = map urlsafe_encode_translation (b64encode s)"

definition urlsafe_b64decode :: "string \<Rightarrow> exn + byte list" where
  "urlsafe_b64decode s =
     (if \<not> is_ascii s then Inl ValueError
      else b64decode (map urlsafe_decode_translation s))"

subsection \<open>Canonical JSON (json.dumps with sort_keys and compact separators)\<close>

text \<open>\<^verbatim>\<open>str.encode('utf-8')\<close> for code points below U+0100.\<close>

definition utf8_encode :: "string \<Rightarrow> byte list" where
  "utf8_encode s =
     concat (map (\<lambda>c. let n = (of_char c :: nat)
                      in if n < 128 then [of_nat n]
                         else [of_nat (192 + n div 64), of_nat (128 + n mod 64)]) s)"

text \<open>
  A string literal as \<^verbatim>\<open>json\<close> writes it with \<^verbatim>\<open>ensure_ascii\<close>: the quote, the backslash
  and the characters outside U+0020 to U+007E are escaped.
\<close>

definition hex_digit :: "nat \<Rightarrow> char" where
  "hex_digit d = ''0123456789abcdef'' ! d"

definition escape_char :: "char \<Rightarrow> string" where
  "escape_char c =
     (let n = (of_char c :: nat)
      in if n = 0x22 then [CHR 0x5C, CHR 0x22]
         else if n = 0x5C then [CHR 0x5C, CHR 0x5C]
         else if n = 0x0A then [CHR 0x5C, CHR ''n'']
         else if n = 0x0D then [CHR 0x5C, CHR ''r'']
         else if n = 0x09 then [CHR 0x5C, CHR ''t'']
         else if n = 0x08 then [CHR 0x5C, CHR ''b'']
         else if n = 0x0C then [CHR 0x5C, CHR ''f'']
         else if n < 0x20 \<or> 0x7E < n
           then [CHR 0x5C, CHR ''u'', CHR ''0'', CHR ''0'', hex_digit (n div 16), hex_digit (n mod 16)]
         else [c])"

definition json_string :: "string \<Rightarrow> string" where
  "json_string s = [CHR 0x22] @ concat (map escape_char s) @ [CHR 0x22]"

text \<open>
  \<^verbatim>\<open>json.dumps(value, sort_keys=True, separators=(',', ':'))\<close>. The library sorts the items
  of a dictionary by key and then writes them; here the values are written first and the
  written items sorted by key, which gives the same text, and the same TypeError when a
  value cannot be serialised.
\<close>

fun dumps :: "json \<Rightarrow> exn + string"
  and dumps_list :: "json list \<Rightarrow> exn + string list"
  and dumps_items :: "(string \<times> json) list \<Rightarrow> exn + (string \<times> string) list" where
  "dumps JNull = Inr ''null''"
| "dumps (JBool b) = Inr (if b then ''true'' else ''false'')"
| "dumps (JInt i) = Inr (str_int i)"
| "dumps (JFloat r) = Inr r"
| "dumps (JStr s) = Inr (json_string s)"
| "dumps (JList xs) =
     (case dumps_list xs of
        Inl e \<Rightarrow> Inl e
      | Inr parts \<Rightarrow> Inr (''['' @ join '','' parts @ '']''))"
| "dumps (JDict kvs) =
     (case dumps_items kvs of
        Inl e \<Rightarrow> Inl e
      | Inr items \<Rightarrow>
          Inr (''{'' @ join '','' (map (\<lambda>(k, v). json_string k @ '':'' @ v) (sort_key fst items))
               @ ''}''))"
| "dumps (JOther h) = Inl TypeError"
| "dumps_list [] = Inr []"
| "dumps_list (x # xs) =
     (case dumps x of
        Inl e \<Rightarrow> Inl e
      | Inr s \<Rightarrow> (case dumps_list xs of Inl e \<Rightarrow> Inl e | Inr ss \<Rightarrow> Inr (s # ss)))"
| "dumps_items [] = Inr []"
| "dumps_items ((k, v) # kvs) =
     (case dumps v of
        Inl e \<Rightarrow> Inl e
      | Inr s \<Rightarrow> (case dumps_items kvs of Inl e \<Rightarrow> Inl e | Inr ss \<Rightarrow> Inr ((k, s) # ss)))"

subsection \<open>Ed25519 (the cryptography library)\<close>

text \<open>
  The operations of the library that the identity module calls, over private key objects
  of type \<open>'k\<close>: the raw public bytes of a key, its PKCS8 PEM text, the PEM loader,
  signing, and verification of a signature on a message under raw public bytes
  (\<open>False\<close> standing for the exception InvalidSignature).
\<close>

record 'k ed25519 =
  ed_public_bytes :: "'k \<Rightarrow> byte list"
  ed_private_pem :: "'k \<Rightarrow> string"
  ed_load_pem :: "byte list \<Rightarrow> exn + 'k"
  ed_sign :: "'k \<Rightarrow> byte list \<Rightarrow> byte list"
  ed_verify :: "byte list \<Rightarrow> byte list \<Rightarrow> byte list \<Rightarrow> bool"

subsection \<open>The identity module (identity.py)\<close>

text \<open>\<^verbatim>\<open>s.rstrip('=')\<close>, \<^verbatim>\<open>s.split(":")[-1]\<close> and the padding step of the verifier.\<close>

definition rstrip :: "char \<Rightarrow> string \<Rightarrow> string" where
  "rstrip c s = rev (dropWhile (\<lambda>x. x = c) (rev s))"

definition last_segment :: "string \<Rightarrow> string" where
  "last_segment s = rev (takeWhile (\<lambda>x. x \<noteq> CHR '':'') (rev s))"

definition add_padding :: "string \<Rightarrow> string" where
  "add_padding public_key_b64 =
     (let padding = 4 - (length public_key_b64 mod 4)
      in if padding \<noteq> 4 then public_key_b64 @ replicate padding CHR ''='' else public_key_b64)"

text \<open>
  \<^verbatim>\<open>generate_keypair\<close>; the key that \<^verbatim>\<open>Ed25519PrivateKey.generate()\<close> draws is an argument.
\<close>

definition generate_keypair :: "'k ed25519 \<Rightarrow> 'k \<Rightarrow> string \<times> string" where
  "generate_keypair lib private_key =
     (let public_bytes = ed_public_bytes lib private_key;
          public_b64 = rstrip CHR ''='' (urlsafe_b64encode public_bytes);
          did = ''did:poros:ed25519:'' @ public_b64;
          private_pem = ed_private_pem lib private_key
      in (did, private_pem))"

text \<open>\<^verbatim>\<open>sign_agent_card\<close>\<close>

definition sign_agent_card ::
  "'k ed25519 \<Rightarrow> (string \<times> json) list \<Rightarrow> string \<Rightarrow> exn + string" where
  "sign_agent_card lib agent_card_dict private_key_pem =
     (case dumps (JDict agent_card_dict) of
        Inl e \<Rightarrow> Inl e
      | Inr canonical_json \<Rightarrow>
          (let message = utf8_encode canonical_json
           in (case ed_load_pem lib (utf8_encode private_key_pem) of
                 Inl e \<Rightarrow> Inl e
               | Inr private_key \<Rightarrow> Inr (b64encode (ed_sign lib private_key message)))))"

text \<open>
  \<^verbatim>\<open>verify_agent_card\<close>: first the body of the \<^verbatim>\<open>try\<close> block, then the function with its
  two \<^verbatim>\<open>except\<close> clauses. The clause for InvalidSignature returns False; the clause for
  every other exception prints the error and then returns False, and a \<^verbatim>\<open>print\<close> that
  raises leaves the function, since the clause is not itself inside a \<^verbatim>\<open>try\<close>.
  \<^verbatim>\<open>Ed25519PublicKey.from_public_bytes\<close> raises ValueError unless it is given 32 bytes.
\<close>

definition verify_agent_card_try ::
  "'k ed25519 \<Rightarrow> (string \<times> json) list \<Rightarrow> string \<Rightarrow> string \<Rightarrow> exn + bool" where
  "verify_agent_card_try lib agent_card_dict signature_b64 did =
     (if \<not> startswith did ''did:poros:ed25519:'' then Inr False
      else
        (case urlsafe_b64decode (add_padding (last_segment did)) of
           Inl e \<Rightarrow> Inl e
         | Inr public_bytes \<Rightarrow>
             (if length public_bytes \<noteq> 32 then Inl ValueError
              else
                (case dumps (JDict agent_card_dict) of
                   Inl e \<Rightarrow> Inl e
                 | Inr canonical_json \<Rightarrow>
                     (let message = utf8_encode canonical_json
                      in (case b64decode signature_b64 of
                            Inl e \<Rightarrow> Inl e
                          | Inr signature \<Rightarrow>
                              (if ed_verify lib public_bytes signature message then Inr True
                               else Inl InvalidSignature)))))))"

definition verify_agent_card ::
  "stdout \<Rightarrow> 'k ed25519 \<Rightarrow> (string \<times> json) list \<Rightarrow> string \<Rightarrow> string \<Rightarrow> exn + bool" where
  "verify_agent_card out lib agent_card_dict signature_b64 did =
     (case verify_agent_card_try lib agent_card_dict signature_b64 did of
        Inr valid \<Rightarrow> Inr valid
      | Inl InvalidSignature \<Rightarrow> Inr False
      | Inl e \<Rightarrow> (case print out of Inl e' \<Rightarrow> Inl e' | Inr u \<Rightarrow> Inr False))"

subsection \<open>The identity endpoints (identity_api.py)\<close>

text \<open>\<^verbatim>\<open>{k: v for k, v in agent_card.items() if k != 'signature'}\<close>\<close>

definition without_signature :: "(string \<times> json) list \<Rightarrow> (string \<times> json) list" where
  "without_signature card_dict = filter (\<lambda>(k, v). k \<noteq> ''signature'') card_dict"

text \<open>
  The handler of \<^verbatim>\<open>/sign-agent-card\<close> returns the signature and the signed card, or
  answers 400 when signing raises; the handler of \<^verbatim>\<open>/verify-agent-card\<close> returns the
  flag \<^verbatim>\<open>valid\<close>, and an exception of \<^verbatim>\<open>verify_agent_card\<close> leaves the handler.
\<close>

definition api_sign_agent_card ::
  "'k ed25519 \<Rightarrow> (string \<times> json) list \<Rightarrow> string \<Rightarrow> exn + string \<times> (string \<times> json) list" where
  "api_sign_agent_card lib card_dict private_key_pem =
     (let agent_card_unsigned = without_signature card_dict
      in case sign_agent_card lib agent_card_unsigned private_key_pem of
           Inl e \<Rightarrow> Inl (HTTPException 400)
         | Inr signature \<Rightarrow>
             Inr (signature, agent_card_unsigned @ [(''signature'', JStr signature)]))"

definition api_verify_agent_card ::
  "stdout \<Rightarrow> 'k ed25519 \<Rightarrow> (string \<times> json) list \<Rightarrow> string \<Rightarrow> string \<Rightarrow> exn + bool" where
  "api_verify_agent_card out lib card_dict signature did =
     (let agent_card_unsigned = without_signature card_dict
      in verify_agent_card out lib agent_card_unsigned signature did)"

subsection \<open>Sample data\<close>

text \<open>Three directory rows, a request and an environment, used to run the definitions.\<close>

definition agent_alpha :: RegisteredAgent where
  "agent_alpha = \<lparr>agent_id = ''acme/alpha'',
     agent_card = [(''name'', JStr ''Alpha''), (''skills'', JList [JDict [(''name'', JStr ''forecast'')]])],
     name = ''Alpha'', description = ''Weather forecasts'', url = ''http://alpha.test'',
     skills_tags = [''weather''], is_active = True, total_calls = 0, success_rate = 1,
     avg_latency_ms = 0\<rparr>"

definition agent_beta :: RegisteredAgent where
  "agent_beta = \<lparr>agent_id = ''acme/beta'',
     agent_card = [(''name'', JStr ''Beta''), (''skills'', JList [])],
     name = ''Beta'', description = ''Slow weather'', url = ''http://beta.test/query'',
     skills_tags = [''weather''], is_active = True, total_calls = 9, success_rate = 1/2,
     avg_latency_ms = 2500\<rparr>"

definition agent_gamma :: RegisteredAgent where
  "agent_gamma = \<lparr>agent_id = ''acme/gamma'',
     agent_card = [(''name'', JStr ''Gamma''), (''metadata'', JDict [(''tier'', JStr ''enterprise'')])],
     name = ''Gamma'', description = ''Hotel booking'', url = ''http://gamma.test'',
     skills_tags = [''hotel''], is_active = True, total_calls = 0, success_rate = 1,
     avg_latency_ms = 0\<rparr>"

text \<open>Alpha answers in 120 ms; every other call times out. Both commits succeed.\<close>

definition demo_world :: world where
  "demo_world = \<lparr>http_post = (\<lambda>u payload. if u = ''http://alpha.test/query''
                                             then Reply (JDict [(''answer'', JStr ''sunny'')]) 120
                                             else Raises ''timed out''),
                  sys_stdout = None,
                  sentence_transformers = None,
                  commit_ok = (\<lambda>n. True),
                  elapsed_ms = 150\<rparr>"

definition demo_db :: database where
  "demo_db = \<lparr>agents = [agent_beta, agent_gamma, agent_alpha], logs = []\<rparr>"

definition demo_request :: OrchestrateRequest where
  "demo_request = \<lparr>query = ''weather'', skill_tags = Some [''weather''],
                    prefer_agent_ids = None, max_agents = 3\<rparr>"

text \<open>One preferred agent, and room for two.\<close>

definition prefer_beta_request :: OrchestrateRequest where
  "prefer_beta_request = \<lparr>query = ''weather'', skill_tags = None,
                           prefer_agent_ids = Some [''acme/beta''], max_agents = 2\<rparr>"

text \<open>Two preferred agents, and room for one.\<close>

definition crowded_request :: OrchestrateRequest where
  "crowded_request = \<lparr>query = ''weather'', skill_tags = Some [''weather''],
                       prefer_agent_ids = Some [''acme/alpha'', ''acme/beta''], max_agents = 1\<rparr>"

text \<open>
  A row whose card lists a skill without a name (registration checks that the card has
  the key "skills", not what a skill holds), and a directory with it.
\<close>

definition agent_delta :: RegisteredAgent where
  "agent_delta = \<lparr>agent_id = ''acme/delta'',
     agent_card = [(''name'', JStr ''Delta''),
                   (''skills'', JList [JDict [(''id'', JStr ''radar''),
                                              (''tags'', JList [JStr ''weather''])]])],
     name = ''Delta'', description = ''Rain radar'', url = ''http://delta.test'',
     skills_tags = [''weather''], is_active = True, total_calls = 0, success_rate = 1,
     avg_latency_ms = 0\<rparr>"

definition delta_db :: database where
  "delta_db = \<lparr>agents = [agent_delta, agent_alpha], logs = []\<rparr>"

text \<open>
  A stand-in for the cryptography library, used to run the identity module on concrete
  inputs: the public bytes of a key are the key itself, the PEM text is the key read as
  characters, and the signature of a message is the key followed by the message. A
  signature made with a key verifies under the public bytes of that key and nothing else
  does; no security is claimed for it.
\<close>

definition toy_ed25519 :: "byte list ed25519" where
  "toy_ed25519 =
     \<lparr>ed_public_bytes = (\<lambda>k. k),
      ed_private_pem = (\<lambda>k. map (\<lambda>b. char_of (unat b)) k),
      ed_load_pem = (\<lambda>pem. Inr pem),
      ed_sign = (\<lambda>k message. k @ message),
      ed_verify = (\<lambda>public_bytes signature message. signature = public_bytes @ message)\<rparr>"

text \<open>A key of 32 bytes, and an agent card without and with a signature field.\<close>

definition toy_key :: "byte list" where
  "toy_key = [1, 2, 3, 4, 5, 6, 7, 8, 9, 10, 11, 12, 13, 14, 15, 16,
              17, 18, 19, 20, 21, 22, 23, 24, 25, 26, 27, 28, 29, 30, 31, 32]"

definition unsigned_card :: "(string \<times> json) list" where
  "unsigned_card = [(''name'', JStr ''Alpha''), (''capabilities'', JList [JStr ''weather''])]"

definition signed_card :: "(string \<times> json) list" where
  "signed_card = unsigned_card @ [(''signature'', JStr ''c2ln'')]"

text \<open>The canonical JSON of the two cards.\<close>

definition unsigned_card_json :: string where
  "unsigned_card_json =
     ''{'' @ [CHR 0x22] @ ''capabilities'' @ [CHR 0x22] @ '':['' @ [CHR 0x22] @ ''weather''
     @ [CHR 0x22] @ ''],'' @ [CHR 0x22] @ ''name'' @ [CHR 0x22] @ '':'' @ [CHR 0x22] @ ''Alpha''
     @ [CHR 0x22] @ ''}''"

definition signed_card_json :: string where
  "signed_card_json =
     ''{'' @ [CHR 0x22] @ ''capabilities'' @ [CHR 0x22] @ '':['' @ [CHR 0x22] @ ''weather''
     @ [CHR 0x22] @ ''],'' @ [CHR 0x22] @ ''name'' @ [CHR 0x22] @ '':'' @ [CHR 0x22] @ ''Alpha''
     @ [CHR 0x22] @ '','' @ [CHR 0x22] @ ''signature'' @ [CHR 0x22] @ '':'' @ [CHR 0x22] @ ''c2ln''
     @ [CHR 0x22] @ ''}''"

section \<open>Properties of the ranking engine\<close>

subsection \<open>Sample evaluations\<close>

lemma demo_words:
  "split (lower ''weather'') = [''weather'']"
  "split (lower (description agent_alpha)) = [''weather'', ''forecasts'']"
  "split (lower (description agent_beta)) = [''slow'', ''weather'']"
  "contains (lower (name agent_alpha)) ''weather'' = False"
  "contains (lower (name agent_beta)) ''weather'' = False"
  by code_simp+

lemma demo_keywords:
  "score_with_keywords agent_alpha ''weather'' = 70"
  "score_with_keywords agent_beta ''weather'' = 70"
  by (simp_all add: score_with_keywords_def demo_words Let_def)

lemma demo_performance:
  "PerformanceRanking_score agent_alpha = 60"
  "PerformanceRanking_score agent_beta = 47"
  by (simp_all add: PerformanceRanking_score_def agent_alpha_def agent_beta_def)

lemma demo_revenue:
  "RevenueRanking_score agent_alpha = Inr 10"
  "RevenueRanking_score agent_beta = Inr 5"
  by (simp_all add: RevenueRanking_score_def dict_get_def tier_scores_get_def hashable_def
      tier_scores_def agent_alpha_def agent_beta_def)

lemma demo_skill:
  "skill_match_score agent_alpha (Some [''weather'']) = 100"
  "skill_match_score agent_beta (Some [''weather'']) = 100"
  "skill_match_score agent_alpha None = 50"
  "skill_match_score agent_beta None = 50"
  by (simp_all add: skill_match_score_def agent_alpha_def agent_beta_def)

lemma demo_hybrid:
  "HybridRanking_score None agent_alpha ''weather'' (Some [''weather'']) = Inr 72.5"
  "HybridRanking_score None agent_beta ''weather'' (Some [''weather'']) = Inr 68.75"
  "HybridRanking_score None agent_alpha ''weather'' None = Inr 52.5"
  "HybridRanking_score None agent_beta ''weather'' None = Inr 48.75"
  by (simp_all add: HybridRanking_score_def SemanticRanking_score_def freshness_score_def
      demo_keywords demo_performance demo_revenue demo_skill)

lemma demo_rank:
  "rank_agents None None [agent_beta, agent_alpha] ''weather'' (Some [''weather'']) ''hybrid''
     = Inr [agent_alpha, agent_beta]"
  "rank_agents None None [agent_beta, agent_alpha] ''weather'' None ''hybrid''
     = Inr [agent_alpha, agent_beta]"
  by (simp_all add: rank_agents_def construct_rankers_def HybridRanking_init_def
      SemanticRanking_init_def print_def strategies_get_def strategies_def demo_hybrid
      sort_descending_def)

lemma delta_hybrid:
  "HybridRanking_score None agent_delta ''weather'' (Some [''weather'']) = Inr 58.5"
proof -
  have w: "split (lower (description agent_delta)) = [''rain'', ''radar'']"
          "contains (lower (name agent_delta)) ''weather'' = False"
    by code_simp+
  have k: "score_with_keywords agent_delta ''weather'' = 0"
    by (simp add: score_with_keywords_def demo_words(1) w Let_def)
  have p: "PerformanceRanking_score agent_delta = 60"
    by (simp add: PerformanceRanking_score_def agent_delta_def)
  have r: "RevenueRanking_score agent_delta = Inr 10"
    by (simp add: RevenueRanking_score_def dict_get_def tier_scores_get_def hashable_def
        tier_scores_def agent_delta_def)
  have m: "skill_match_score agent_delta (Some [''weather'']) = 100"
    by (simp add: skill_match_score_def agent_delta_def)
  show ?thesis
    by (simp add: HybridRanking_score_def SemanticRanking_score_def freshness_score_def k p r m)
qed

lemma delta_rank:
  "rank_agents None None [agent_delta, agent_alpha] ''weather'' (Some [''weather'']) ''hybrid''
     = Inr [agent_alpha, agent_delta]"
  by (simp add: rank_agents_def construct_rankers_def HybridRanking_init_def
      SemanticRanking_init_def print_def strategies_get_def strategies_def demo_hybrid
      delta_hybrid sort_descending_def)

subsection \<open>The ranking is a reordering\<close>

lemma score_all_fst: "score_all f ags = Inr scored \<Longrightarrow> map fst scored = ags"
  by (induction ags arbitrary: scored) (auto split: sum.splits)

lemma rank_agents_mset:
  assumes "rank_agents out backend ags q tags strategy = Inr ranked"
  shows "mset ranked = mset ags"
proof -
  obtain scored
    where sc: "score_all (\<lambda>agent. ranker_score backend (strategies_get strategy) agent q tags) ags
                 = Inr scored"
      and r: "ranked = map fst (sort_descending scored)"
    using assms by (auto simp add: rank_agents_def Let_def split: sum.splits)
  have "mset ranked = mset (map fst scored)"
    unfolding r sort_descending_def by simp
  then show ?thesis using score_all_fst [OF sc] by simp
qed

subsection \<open>Score ranges\<close>

lemma PerformanceRanking_score_bounds:
  assumes "0 \<le> success_rate agent" "success_rate agent \<le> 1"
    and "0 \<le> avg_latency_ms agent" and "0 \<le> total_calls agent"
  shows "0 \<le> PerformanceRanking_score agent \<and> PerformanceRanking_score agent \<le> 100"
proof -
  have pop: "0 \<le> log 10 (real_of_int (total_calls agent + 1))" if "total_calls agent > 0"
    using that by simp
  have lat: "max 0 (30 - avg_latency_ms agent / 5000 * 30) \<le> 30"
    using assms(3) by simp
  show ?thesis
    using assms pop lat
    by (auto simp add: PerformanceRanking_score_def Let_def min_def)
qed

lemma score_with_keywords_bounds:
  "0 \<le> score_with_keywords agent q \<and> score_with_keywords agent q \<le> 100"
  by (simp add: score_with_keywords_def Let_def)

lemma ratio_le_one: "a \<le> b \<Longrightarrow> real a * 100 / real b \<le> 100"
  by (cases "b = 0") (simp_all add: field_simps)

lemma skill_match_score_bounds:
  "0 \<le> skill_match_score agent tags \<and> skill_match_score agent tags \<le> 100"
proof -
  have "card (set (skills_tags agent) \<inter> set ts) \<le> card (set (skills_tags agent) \<union> set ts)" for ts
    by (rule card_mono) auto
  then have "real (card (set (skills_tags agent) \<inter> set ts)) * 100
        / real (card (set (skills_tags agent) \<union> set ts)) \<le> 100" for ts
    by (rule ratio_le_one)
  then show ?thesis
    by (auto simp add: skill_match_score_def Let_def split: option.splits)
qed

lemma RevenueRanking_score_bounds:
  assumes "RevenueRanking_score agent = Inr s" "0 \<le> success_rate agent" "success_rate agent \<le> 1"
  shows "0 \<le> s \<and> s \<le> 110"
  using assms
  by (auto simp add: RevenueRanking_score_def tier_scores_get_def tier_scores_def
      split: json.splits sum.splits if_splits option.splits)

lemma HybridRanking_score_bounds:
  assumes "HybridRanking_score None agent q tags = Inr s"
    and "0 \<le> success_rate agent" "success_rate agent \<le> 1"
    and "0 \<le> avg_latency_ms agent" and "0 \<le> total_calls agent"
  shows "0 \<le> s \<and> s \<le> 100"
proof -
  obtain r where r: "RevenueRanking_score agent = Inr r"
    and s: "s = skill_match_score agent tags * 0.40 + PerformanceRanking_score agent * 0.25
          + score_with_keywords agent q * 0.20 + r * 0.10 + 50 * 0.05"
    using assms(1)
    by (auto simp add: HybridRanking_score_def SemanticRanking_score_def freshness_score_def
        Let_def split: sum.splits)
  note b1 = skill_match_score_bounds [of agent tags]
  note b2 = PerformanceRanking_score_bounds [OF assms(2-5)]
  note b3 = score_with_keywords_bounds [of agent q]
  note b4 = RevenueRanking_score_bounds [OF r assms(2,3)]
  show ?thesis
    unfolding s using b1 b2 b3 b4 by simp
qed

text \<open>
  Claim C4 (every strategy score and every component of the hybrid sum lies in [0, 100]).
  The performance, keyword and skill-match scores and the hybrid sum stay in that range
  (lemmas above), but the revenue score does not: for an agent of tier "enterprise" with
  success rate 1.0, \<^verbatim>\<open>RevenueRanking.score\<close> returns 100 + 1.0 * 10 = 110.
\<close>

theorem RevenueRanking_score_enterprise:
  "success_rate agent_gamma = 1 \<and> RevenueRanking_score agent_gamma = Inr 110"
  by (simp add: RevenueRanking_score_def dict_get_def tier_scores_get_def hashable_def
      tier_scores_def agent_gamma_def)

text \<open>
  For a measured (positive) average latency, \<^verbatim>\<open>PerformanceRanking.score\<close> is the sum
  of 60 points for the success rate, up to 30 for the latency and up to 10 for the
  popularity.
\<close>

lemma PerformanceRanking_score_measured:
  assumes "0 < avg_latency_ms agent" and "0 \<le> total_calls agent"
  shows "PerformanceRanking_score agent =
           success_rate agent * 60
           + max 0 (30 - (avg_latency_ms agent / 5000) * 30)
           + min 10 (log 10 (real_of_int (total_calls agent + 1)) * 2)"
  using assms by (auto simp add: PerformanceRanking_score_def Let_def)

lemma PerformanceRanking_score_unmeasured:
  assumes "avg_latency_ms agent = 0" and "0 \<le> total_calls agent"
  shows "PerformanceRanking_score agent =
           success_rate agent * 60 + min 10 (log 10 (real_of_int (total_calls agent + 1)) * 2)"
  using assms by (auto simp add: PerformanceRanking_score_def Let_def)

text \<open>
  Claim C5 (the performance score is
  successRate * 60 + max(0, 30 - avgLatencyMs / 5000 * 30) + min(10, log10(totalCalls + 1) * 2),
  with 30 latency points at 0 ms). The comments of \<^verbatim>\<open>PerformanceRanking.score\<close> say the
  same (\<^verbatim>\<open>Latency (0-30 points, lower is better)\<close>, \<^verbatim>\<open>0ms=30pts, 5000ms=0pts\<close>), but the
  guard \<^verbatim>\<open>if agent.avg_latency_ms > 0\<close> skips the latency term at an average latency of
  exactly 0, the value a newly registered agent has: the agent gets 0 latency points and
  the score 60, where the formula gives 90, and the same agent with an average latency of
  5 ms scores 89.97.
\<close>

theorem PerformanceRanking_score_zero_latency:
  "avg_latency_ms agent_alpha = 0
   \<and> PerformanceRanking_score agent_alpha = 60
   \<and> success_rate agent_alpha * 60 + max 0 (30 - (avg_latency_ms agent_alpha / 5000) * 30)
       + min 10 (log 10 (real_of_int (total_calls agent_alpha + 1)) * 2) = 90
   \<and> PerformanceRanking_score (agent_alpha\<lparr>avg_latency_ms := 5\<rparr>) = 89.97"
  by (simp add: PerformanceRanking_score_def agent_alpha_def)

text \<open>
  Claim C10: a strategy name outside "performance", "semantic", "revenue" and "hybrid"
  makes \<^verbatim>\<open>rank_agents\<close> return exactly what it returns for "hybrid" (the same ordering, or
  the same exception); no error is raised for the unknown name.
\<close>

theorem rank_agents_unknown_strategy:
  "strategy \<notin> {''performance'', ''semantic'', ''revenue'', ''hybrid''} \<Longrightarrow>
   rank_agents out backend ags q tags strategy = rank_agents out backend ags q tags ''hybrid''"
proof -
  assume "strategy \<notin> {''performance'', ''semantic'', ''revenue'', ''hybrid''}"
  then have "strategies_get strategy = strategies_get ''hybrid''"
    by (simp add: strategies_get_def strategies_def)
  then show ?thesis
    unfolding rank_agents_def by (rule arg_cong)
qed

theorem rank_agents_unknown_strategy_witness:
  "''fastest'' \<notin> {''performance'', ''semantic'', ''revenue'', ''hybrid''}
   \<and> rank_agents None None [agent_beta, agent_alpha] ''weather'' None ''fastest''
       = Inr [agent_alpha, agent_beta]"
  using rank_agents_unknown_strategy
    [of "''fastest''" None None "[agent_beta, agent_alpha]" "''weather''" None]
  by (simp add: demo_rank)




section \<open>Properties of the orchestrator\<close>

subsection \<open>Selection\<close>

lemma slice_to_set: "set (slice_to n xs) \<subseteq> set xs"
  by (auto simp add: slice_to_def dest: in_set_takeD)

lemma slice_to_distinct: "distinct xs \<Longrightarrow> distinct (slice_to n xs)"
  by (simp add: slice_to_def)

lemma select_agents_distinct:
  assumes "distinct matching" and "distinct ranked" and "set ranked = set matching"
  shows "distinct (select_agents request matching ranked)
         \<and> set (select_agents request matching ranked) \<subseteq> set matching"
proof -
  have s: "set (slice_to n ranked) \<subseteq> set matching" for n
    using slice_to_set [of n ranked] assms(3) by simp
  have d: "distinct (slice_to n ranked)" for n
    using assms(2) by (rule slice_to_distinct)
  have "distinct (filter P matching
                  @ filter (\<lambda>a. a \<notin> set (filter P matching)) (slice_to n ranked))" for P n
    using assms(1) d [of n] by auto
  then have d2: "distinct (slice_to m (filter P matching
                  @ filter (\<lambda>a. a \<notin> set (filter P matching)) (slice_to n ranked)))" for P n m
    by (rule slice_to_distinct)
  have s2: "set (slice_to m (filter P matching
                  @ filter (\<lambda>a. a \<notin> set (filter P matching)) (slice_to n ranked)))
              \<subseteq> set matching" for P n m
    using slice_to_set [of m "filter P matching
                  @ filter (\<lambda>a. a \<notin> set (filter P matching)) (slice_to n ranked)"] s [of n]
    by auto
  show ?thesis
    using d s d2 s2 by (simp add: select_agents_def Let_def split: option.splits)
qed

lemma select_agents_eq:
  assumes "0 \<le> max_agents request" and "prefer_agent_ids request = Some ids"
  shows "select_agents request matching ranked =
     take (nat (max_agents request))
       (filter (\<lambda>a. agent_id a \<in> set ids) matching
        @ filter (\<lambda>a. a \<notin> set (filter (\<lambda>a. agent_id a \<in> set ids) matching))
            (take (nat (max_agents request)) ranked))"
  using assms by (simp add: select_agents_def slice_to_def Let_def)

lemma preferred_block:
  assumes "\<forall>a \<in> set pref. P a" and "\<forall>a \<in> set rest. \<not> P a"
    and "i < j" and "j < length (take n (pref @ rest))" and "P (take n (pref @ rest) ! j)"
  shows "P (take n (pref @ rest) ! i)"
proof -
  have j: "j < n" "j < length pref + length rest" using assms(4) by simp_all
  have tj: "take n (pref @ rest) ! j = (pref @ rest) ! j" using j(1) by (rule nth_take)
  have "j < length pref"
  proof (rule ccontr)
    assume "\<not> j < length pref"
    then have "(pref @ rest) ! j = rest ! (j - length pref)" "j - length pref < length rest"
      using j by (simp_all add: nth_append)
    then have "\<not> P ((pref @ rest) ! j)" using assms(2) by simp
    then show False using assms(5) tj by simp
  qed
  then have i: "i < length pref" "i < n" using assms(3) j by simp_all
  have "take n (pref @ rest) ! i = (pref @ rest) ! i" using i(2) by (rule nth_take)
  then have "take n (pref @ rest) ! i = pref ! i" using i(1) by (simp add: nth_append)
  then show ?thesis using assms(1) i(1) by simp
qed

lemma demo_ids:
  "agent_id agent_alpha = ''acme/alpha''"
  "agent_id agent_beta = ''acme/beta''"
  "agent_alpha \<noteq> agent_beta"
  "agent_beta \<noteq> agent_alpha"
  by (simp_all add: agent_alpha_def agent_beta_def)

lemma demo_discover:
  "discover demo_db demo_request = [agent_beta, agent_alpha]"
  "discover demo_db crowded_request = [agent_beta, agent_alpha]"
  by (simp_all add: discover_def demo_db_def demo_request_def crowded_request_def
      agent_alpha_def agent_beta_def agent_gamma_def)

lemma demo_select_phase:
  "select_phase demo_world demo_db demo_request = Inr [agent_alpha, agent_beta]"
  by (simp add: select_phase_def demo_discover Let_def)
     (simp add: demo_world_def demo_request_def demo_rank select_agents_def slice_to_def)

text \<open>
  Claim C7, as stated (every preferred agent present in the filtered candidate set
  appears in the selection), fails when more agents are preferred than \<^verbatim>\<open>max_agents\<close>
  allows: with two preferred candidates and \<^verbatim>\<open>max_agents = 1\<close> the selection is the first
  preferred candidate alone, and the other preferred candidate (here the top-ranked one)
  is cut off by the final truncation.
\<close>

theorem select_agents_counterexample:
  "valid_request crowded_request
   \<and> prefer_agent_ids crowded_request = Some [''acme/alpha'', ''acme/beta'']
   \<and> discover demo_db crowded_request = [agent_beta, agent_alpha]
   \<and> agent_id agent_alpha = ''acme/alpha''
   \<and> select_phase demo_world demo_db crowded_request = Inr [agent_beta]
   \<and> agent_alpha \<notin> set [agent_beta]"
proof -
  have "select_phase demo_world demo_db crowded_request = Inr [agent_beta]"
    by (simp add: select_phase_def demo_discover Let_def)
       (simp add: demo_world_def crowded_request_def demo_rank select_agents_def slice_to_def
          demo_ids)
  then show ?thesis
    by (simp add: demo_discover valid_request_def demo_ids)
       (simp add: crowded_request_def)
qed

text \<open>
  Claim C7, amended: for a request with \<^verbatim>\<open>prefer_agent_ids\<close> supplied and
  0 <= max_agents, over candidates with distinct agent ids, the selection is the first
  max_agents entries of (preferred candidates in candidate order, then the top-ranked
  others). Hence it has no duplicates, at most max_agents entries, only candidates, and
  no non-preferred agent ahead of a preferred one; every preferred candidate is selected
  when at most max_agents candidates are preferred; and when max_agents >= 1 and some
  candidate is preferred, the first selected agent is a preferred one, whatever its rank.
\<close>

theorem select_agents_preferred_first:
  assumes rank: "rank_agents out backend matching q tags strategy = Inr ranked"
    and ids: "prefer_agent_ids request = Some ids"
    and dist: "distinct (map agent_id matching)"
    and max0: "0 \<le> max_agents request"
  shows "let selection = select_agents request matching ranked;
             preferred = (\<lambda>a. agent_id a \<in> set ids)
         in selection = take (nat (max_agents request))
                          (filter preferred matching
                           @ filter (\<lambda>a. \<not> preferred a) (take (nat (max_agents request)) ranked))
            \<and> distinct selection
            \<and> int (length selection) \<le> max_agents request
            \<and> set selection \<subseteq> set matching
            \<and> (\<forall>i j. i < j \<and> j < length selection \<and> preferred (selection ! j)
                   \<longrightarrow> preferred (selection ! i))
            \<and> (int (length (filter preferred matching)) \<le> max_agents request
                   \<longrightarrow> (\<forall>a \<in> set matching. preferred a \<longrightarrow> a \<in> set selection))
            \<and> (1 \<le> max_agents request \<and> (\<exists>a \<in> set matching. preferred a)
                   \<longrightarrow> selection \<noteq> [] \<and> preferred (hd selection))"
proof -
  define P :: "RegisteredAgent \<Rightarrow> bool" where "P = (\<lambda>a. agent_id a \<in> set ids)"
  define n where "n = nat (max_agents request)"
  define pref where "pref = filter P matching"
  define rest where "rest = filter (\<lambda>a. a \<notin> set pref) (take n ranked)"
  define selection where "selection = select_agents request matching ranked"
  have sel: "selection = take n (pref @ rest)"
    unfolding selection_def pref_def rest_def P_def n_def
    by (rule select_agents_eq [OF max0 ids])
  have dm: "distinct matching" using dist by (simp add: distinct_map)
  have m: "mset ranked = mset matching" by (rule rank_agents_mset [OF rank])
  have dr: "distinct ranked" using m dm by (metis mset_eq_imp_distinct_iff)
  have sr: "set ranked = set matching" using m by (rule mset_eq_setD)
  have pref_P: "\<forall>a \<in> set pref. P a" by (simp add: pref_def)
  have rest_sub: "set rest \<subseteq> set matching"
    using sr by (auto simp add: rest_def dest: in_set_takeD)
  have rest_P: "\<forall>a \<in> set rest. \<not> P a"
    using rest_sub by (auto simp add: rest_def pref_def)
  have d: "distinct (pref @ rest)"
    using dm dr by (auto simp add: pref_def rest_def)
  have c1: "distinct selection" unfolding sel using d by (rule distinct_take)
  have c2: "int (length selection) \<le> max_agents request"
    unfolding sel n_def using max0 by simp
  have c3: "set selection \<subseteq> set matching"
    unfolding sel using rest_sub by (auto simp add: pref_def dest: in_set_takeD)
  have c4: "\<forall>i j. i < j \<and> j < length selection \<and> P (selection ! j) \<longrightarrow> P (selection ! i)"
    unfolding sel using preferred_block [OF pref_P rest_P] by blast
  have c5: "\<forall>a \<in> set matching. P a \<longrightarrow> a \<in> set selection"
    if "int (length (filter P matching)) \<le> max_agents request"
  proof -
    have "length pref \<le> n" using that by (simp add: pref_def n_def)
    then have "take n (pref @ rest) = pref @ take (n - length pref) rest" by simp
    then show ?thesis unfolding sel by (simp add: pref_def)
  qed
  have c6: "selection \<noteq> [] \<and> P (hd selection)"
    if "1 \<le> max_agents request" and "\<exists>a \<in> set matching. P a"
  proof -
    have "pref \<noteq> []" using that(2) by (auto simp add: pref_def filter_empty_conv)
    then obtain p ps where p: "pref = p # ps" by (cases pref) auto
    have "0 < n" using that(1) by (simp add: n_def)
    then obtain k where k: "n = Suc k" by (cases n) auto
    have "P p" using pref_P p by simp
    then show ?thesis unfolding sel p k by simp
  qed
  have "rest = filter (\<lambda>a. \<not> P a) (take n ranked)"
    unfolding rest_def using sr
    by (intro filter_cong refl) (auto simp add: pref_def dest: in_set_takeD)
  then have c0: "selection = take n (filter P matching @ filter (\<lambda>a. \<not> P a) (take n ranked))"
    unfolding sel pref_def by simp
  have "selection = take n (filter P matching @ filter (\<lambda>a. \<not> P a) (take n ranked))
     \<and> distinct selection
     \<and> int (length selection) \<le> max_agents request
     \<and> set selection \<subseteq> set matching
     \<and> (\<forall>i j. i < j \<and> j < length selection \<and> P (selection ! j) \<longrightarrow> P (selection ! i))
     \<and> (int (length (filter P matching)) \<le> max_agents request
            \<longrightarrow> (\<forall>a \<in> set matching. P a \<longrightarrow> a \<in> set selection))
     \<and> (1 \<le> max_agents request \<and> (\<exists>a \<in> set matching. P a)
            \<longrightarrow> selection \<noteq> [] \<and> P (hd selection))"
    using c0 c1 c2 c3 c4 c5 c6 by blast
  then show ?thesis
    unfolding Let_def selection_def P_def n_def .
qed

theorem select_agents_preferred_first_witness:
  "rank_agents None None [agent_beta, agent_alpha] ''weather'' None ''hybrid''
     = Inr [agent_alpha, agent_beta]
   \<and> prefer_agent_ids prefer_beta_request = Some [''acme/beta'']
   \<and> distinct (map agent_id [agent_beta, agent_alpha])
   \<and> 0 \<le> max_agents prefer_beta_request
   \<and> select_agents prefer_beta_request [agent_beta, agent_alpha] [agent_alpha, agent_beta]
       = [agent_beta, agent_alpha]
   \<and> select_agents prefer_beta_request [agent_beta, agent_alpha] [agent_alpha, agent_beta] \<noteq> []
   \<and> agent_id (hd (select_agents prefer_beta_request [agent_beta, agent_alpha]
                      [agent_alpha, agent_beta])) = ''acme/beta''"
proof -
  have r: "rank_agents None None [agent_beta, agent_alpha] ''weather'' None ''hybrid''
             = Inr [agent_alpha, agent_beta]"
    by (rule demo_rank)
  have i: "prefer_agent_ids prefer_beta_request = Some [''acme/beta'']"
    by (simp add: prefer_beta_request_def)
  have d: "distinct (map agent_id [agent_beta, agent_alpha])"
    by (simp add: agent_alpha_def agent_beta_def)
  have m: "0 \<le> max_agents prefer_beta_request"
    by (simp add: prefer_beta_request_def)
  have b: "agent_id agent_beta = ''acme/beta''" "1 \<le> max_agents prefer_beta_request"
    by (simp_all add: agent_beta_def prefer_beta_request_def)
  have n: "nat (max_agents prefer_beta_request) = 2"
    by (simp add: prefer_beta_request_def)
  show ?thesis
    using select_agents_preferred_first [OF r i d m] r i d m b
    by (simp add: Let_def n demo_ids)
qed


subsection \<open>Dispatch and metrics\<close>

lemma dispatch_eq:
  "dispatch w request selected = map (\<lambda>a. call_agent_http w a (query request)) selected"
  by (simp add: dispatch_def format_result_def Let_def)

lemma changed_eq:
  "map2 update_metrics selected (dispatch w request selected)
     = map (\<lambda>a. update_metrics a (call_agent_http w a (query request))) selected"
  unfolding dispatch_eq by (induction selected) simp_all

lemma update_metrics_keeps [simp]:
  "agent_id (update_metrics a r) = agent_id a"
  "name (update_metrics a r) = name a"
  "url (update_metrics a r) = url a"
  "agent_card (update_metrics a r) = agent_card a"
  by (simp_all add: update_metrics_def Let_def)

lemma skill_names_update [simp]: "skill_names (update_metrics a r) = skill_names a"
  by (simp add: skill_names_def)

lemma selected_agents_info_update:
  "selected_agents_info (map (\<lambda>a. update_metrics a (f a)) selected) = selected_agents_info selected"
  by (induction selected) (simp_all split: sum.splits)

lemma find_by_key:
  assumes "\<And>y. k (g y) = k y"
  shows "distinct (map k xs) \<Longrightarrow> x \<in> set xs \<Longrightarrow> find (\<lambda>y. k y = k x) (map g xs) = Some (g x)"
  using assms by (induction xs) (auto simp add: rev_image_eqI)

lemma find_by_key_none:
  assumes "\<And>y. k (g y) = k y"
  shows "k x \<notin> k ` set xs \<Longrightarrow> find (\<lambda>y. k y = k x) (map g xs) = None"
  using assms by (induction xs) auto

lemma call_status:
  "status_is_success (call_agent_http w a q)
     = (case http_post w (query_url a) (JDict [(''query'', JStr q)]) of
          Reply data latency \<Rightarrow> True
        | Raises msg \<Rightarrow> False)"
  by (simp add: call_agent_http_def status_is_success_def Let_def split: http_outcome.splits)

lemma call_latency:
  "get_latency_ms (call_agent_http w a q)
     = (case http_post w (query_url a) (JDict [(''query'', JStr q)]) of
          Reply data latency \<Rightarrow> latency
        | Raises msg \<Rightarrow> 0)"
  by (simp add: call_agent_http_def get_latency_ms_def Let_def split: http_outcome.splits)

lemma discover_subset: "set (discover db request) \<subseteq> set (agents db)"
  by (auto simp add: discover_def Let_def split: option.splits)

lemma discover_distinct:
  "distinct (map agent_id (agents db)) \<Longrightarrow> distinct (map agent_id (discover db request))"
  by (auto simp add: discover_def Let_def distinct_map_filter split: option.splits)

lemma select_phase_selected:
  assumes "select_phase w db request = Inr selected" and "distinct (map agent_id (agents db))"
  shows "set selected \<subseteq> set (agents db) \<and> distinct (map agent_id selected)"
proof -
  define matching where "matching = discover db request"
  obtain ranked
    where r: "rank_agents (sys_stdout w) (sentence_transformers w) matching (query request)
                (skill_tags request) ''hybrid'' = Inr ranked"
      and sel: "selected = select_agents request matching ranked"
    using assms(1)
    by (auto simp add: select_phase_def Let_def matching_def split: if_splits sum.splits)
  have dm: "distinct (map agent_id matching)"
    unfolding matching_def using assms(2) by (rule discover_distinct)
  then have dm': "distinct matching" and inj: "inj_on agent_id (set matching)"
    by (simp_all add: distinct_map)
  have m: "mset ranked = mset matching" by (rule rank_agents_mset [OF r])
  have "distinct ranked" using m dm' by (metis mset_eq_imp_distinct_iff)
  moreover have "set ranked = set matching" using m by (rule mset_eq_setD)
  ultimately have ds: "distinct selected" and ss: "set selected \<subseteq> set matching"
    using select_agents_distinct [OF dm', of ranked request] sel by simp_all
  have "inj_on agent_id (set selected)" using inj ss by (rule inj_on_subset)
  then have "distinct (map agent_id selected)" using ds by (simp add: distinct_map)
  moreover have "set selected \<subseteq> set (agents db)"
    using ss discover_subset [of db request] by (simp add: matching_def)
  ultimately show ?thesis by simp
qed

lemma orchestrate_agents:
  assumes "select_phase w db request = Inr selected" and "commit_ok w 0"
  shows "agents (snd (orchestrate w db request))
     = write_back (map (\<lambda>a. update_metrics a (call_agent_http w a (query request))) selected)
         (agents db)"
  using assms by (simp add: orchestrate_def serve_def Let_def changed_eq)

lemma orchestrate_response:
  assumes "select_phase w db request = Inr selected" and "commit_ok w 0" and "commit_ok w 1"
    and "selected_agents_info selected = Inr infos"
  shows "fst (orchestrate w db request) =
     Inr \<lparr>resp_query = query request, resp_selected_agents = infos,
          resp_results = map (\<lambda>a. call_agent_http w a (query request)) selected,
          resp_summary = generate_summary (query request)
                           (map (\<lambda>a. call_agent_http w a (query request)) selected),
          resp_latency_ms = elapsed_ms w\<rparr>"
  using assms
  by (simp add: orchestrate_def serve_def Let_def respond_def changed_eq selected_agents_info_update)
     (simp add: dispatch_eq)

lemma select_phase_http_post [simp]:
  "select_phase (w\<lparr>http_post := post\<rparr>) db request = select_phase w db request"
  by (simp add: select_phase_def Let_def cong: if_cong)

lemma select_phase_commit_ok [simp]:
  "select_phase (w\<lparr>commit_ok := c\<rparr>) db request = select_phase w db request"
  by (simp add: select_phase_def Let_def cong: if_cong)

lemma demo_calls:
  "call_agent_http demo_world agent_alpha ''weather'' =
     [(''agent_id'', S ''acme/alpha''), (''agent_name'', S ''Alpha''), (''status'', S ''success''),
      (''latency_ms'', F 120), (''result'', J (JDict [(''answer'', JStr ''sunny'')]))]"
  "call_agent_http demo_world agent_beta ''weather'' =
     [(''agent_id'', S ''acme/beta''), (''agent_name'', S ''Beta''), (''status'', S ''error''),
      (''error'', S ''timed out''), (''latency_ms'', F 0)]"
  by (simp_all add: call_agent_http_def query_url_def endswith_def demo_world_def
      agent_alpha_def agent_beta_def)

lemma demo_infos:
  "selected_agents_info [agent_alpha, agent_beta] =
     Inr [JDict [(''agent_id'', JStr ''acme/alpha''), (''name'', JStr ''Alpha''),
                 (''url'', JStr ''http://alpha.test''), (''skills'', JList [JStr ''forecast''])],
          JDict [(''agent_id'', JStr ''acme/beta''), (''name'', JStr ''Beta''),
                 (''url'', JStr ''http://beta.test/query''), (''skills'', JList [])]]"
  by (simp add: skill_names_def dict_get_def agent_alpha_def agent_beta_def)

lemma demo_db_ids: "distinct (map agent_id (agents demo_db))"
  by (simp add: demo_db_def agent_alpha_def agent_beta_def agent_gamma_def)

lemma demo_write_back:
  "write_back (map (\<lambda>a. update_metrics a (call_agent_http demo_world a (query demo_request)))
                 [agent_alpha, agent_beta]) (agents demo_db) =
     [agent_beta\<lparr>total_calls := 10, success_rate := 9/20\<rparr>,
      agent_gamma,
      agent_alpha\<lparr>total_calls := 1, avg_latency_ms := 12\<rparr>]"
proof -
  have q: "query demo_request = ''weather''" by (simp add: demo_request_def)
  have u: "update_metrics agent_alpha (call_agent_http demo_world agent_alpha ''weather'')
             = agent_alpha\<lparr>total_calls := 1, avg_latency_ms := 12\<rparr>"
          "update_metrics agent_beta (call_agent_http demo_world agent_beta ''weather'')
             = agent_beta\<lparr>total_calls := 10, success_rate := 9/20\<rparr>"
    unfolding demo_calls
    by (simp_all add: update_metrics_def status_is_success_def get_latency_ms_def
        agent_alpha_def agent_beta_def)
  have ids: "agent_id agent_gamma = ''acme/gamma''"
    by (simp add: agent_gamma_def)
  show ?thesis
    unfolding q by (simp add: u write_back_def demo_db_def demo_ids ids)
qed

lemma demo_agents_after:
  "agents (snd (orchestrate demo_world demo_db demo_request)) =
     [agent_beta\<lparr>total_calls := 10, success_rate := 9/20\<rparr>,
      agent_gamma,
      agent_alpha\<lparr>total_calls := 1, avg_latency_ms := 12\<rparr>]"
proof -
  have c: "commit_ok demo_world 0" by (simp add: demo_world_def)
  show ?thesis
    unfolding orchestrate_agents [OF demo_select_phase c] by (rule demo_write_back)
qed

lemma call_agent_http_commit_ok [simp]:
  "call_agent_http (w\<lparr>commit_ok := c\<rparr>) a q = call_agent_http w a q"
  by (simp add: call_agent_http_def)

lemma demo_urls:
  "query_url agent_alpha = ''http://alpha.test/query''"
  "query_url agent_beta = ''http://beta.test/query''"
  "query_url agent_delta = ''http://delta.test/query''"
  by (simp_all add: query_url_def endswith_def agent_alpha_def agent_beta_def agent_delta_def)

lemma demo_posts:
  "http_post demo_world ''http://alpha.test/query'' payload
     = Reply (JDict [(''answer'', JStr ''sunny'')]) 120"
  "http_post demo_world ''http://beta.test/query'' payload = Raises ''timed out''"
  "http_post demo_world ''http://delta.test/query'' payload = Raises ''timed out''"
  by (simp_all add: demo_world_def)

lemma delta_select_phase:
  "select_phase demo_world delta_db demo_request = Inr [agent_alpha, agent_delta]"
proof -
  have d: "discover delta_db demo_request = [agent_delta, agent_alpha]"
    by (simp add: discover_def delta_db_def demo_request_def agent_alpha_def agent_delta_def)
  show ?thesis
    by (simp add: select_phase_def d Let_def)
       (simp add: demo_world_def demo_request_def delta_rank select_agents_def slice_to_def)
qed

lemma delta_infos: "selected_agents_info [agent_alpha, agent_delta] = Inl KeyError"
  by (simp add: skill_names_def dict_get_def agent_alpha_def agent_delta_def)

lemma orchestrate_response_raises:
  assumes "select_phase w db request = Inr selected" and "commit_ok w 0" and "commit_ok w 1"
    and "selected_agents_info selected = Inl e"
  shows "fst (orchestrate w db request) = Inl e"
  using assms
  by (simp add: orchestrate_def serve_def Let_def respond_def changed_eq selected_agents_info_update)

lemma orchestrate_completes:
  assumes "select_phase w db request = Inr selected"
  shows "(\<exists>resp. fst (orchestrate w db request) = Inr resp)
           \<longleftrightarrow> commit_ok w 0 \<and> commit_ok w 1 \<and> (\<exists>infos. selected_agents_info selected = Inr infos)"
  using assms
  by (auto simp add: orchestrate_def serve_def Let_def respond_def changed_eq
      selected_agents_info_update split: sum.splits)

text \<open>
  Claim C6, as stated (for every selected agent, whether its call succeeded or failed,
  both rolling metrics follow new = old * 0.9 + sample * 0.1, the latency sample being
  the measured latency), fails for the latency average of an agent whose call failed:
  the result carries latency_ms = 0.0, the guard \<^verbatim>\<open>result.get("latency_ms", 0) > 0\<close> skips
  the update, and the stored average stays 2500 where the rule gives 2250.
\<close>

theorem latency_average_counterexample:
  "select_phase demo_world demo_db demo_request = Inr [agent_alpha, agent_beta]
   \<and> get_latency_ms (call_agent_http demo_world agent_beta (query demo_request)) = 0
   \<and> agents (snd (orchestrate demo_world demo_db demo_request)) ! 0
       = agent_beta\<lparr>total_calls := 10, success_rate := 9/20\<rparr>
   \<and> avg_latency_ms (agents (snd (orchestrate demo_world demo_db demo_request)) ! 0) = 2500
   \<and> avg_latency_ms agent_beta * 0.9
        + get_latency_ms (call_agent_http demo_world agent_beta (query demo_request)) * 0.1 = 2250"
proof -
  have q: "query demo_request = ''weather''" by (simp add: demo_request_def)
  have l: "get_latency_ms (call_agent_http demo_world agent_beta ''weather'') = 0"
    unfolding demo_calls by (simp add: get_latency_ms_def)
  have a: "avg_latency_ms agent_beta = 2500" by (simp add: agent_beta_def)
  show ?thesis
    by (simp add: demo_select_phase demo_agents_after q l a)
qed

text \<open>
  Claim C6, amended: once the first commit succeeds, every selected agent's stored row
  has total_calls increased by 1 and success_rate = old * 0.9 + sample * 0.1 with sample
  1.0 for a successful call and 0.0 for a failed one; avg_latency_ms becomes
  old * 0.9 + latency * 0.1 only when the call succeeded with a measured latency above 0,
  and is left unchanged otherwise (in particular after every failed call). The rows of
  agents that were not selected are unchanged.
\<close>

theorem metrics_updated_after_dispatch:
  assumes sel: "select_phase w db request = Inr selected"
    and commit: "commit_ok w 0"
    and dist: "distinct (map agent_id (agents db))"
  shows "let db' = snd (orchestrate w db request)
         in map agent_id (agents db') = map agent_id (agents db)
            \<and> (\<forall>row \<in> set (agents db).
                  agent_id row \<notin> agent_id ` set selected \<longrightarrow> row \<in> set (agents db'))
            \<and> (\<forall>a \<in> set selected. \<exists>a' \<in> set (agents db').
                  agent_id a' = agent_id a
                  \<and> total_calls a' = total_calls a + 1
                  \<and> (case http_post w (query_url a) (JDict [(''query'', JStr (query request))]) of
                        Reply data latency \<Rightarrow>
                          success_rate a' = success_rate a * 0.9 + 1.0 * 0.1
                          \<and> avg_latency_ms a' =
                              (if latency > 0 then avg_latency_ms a * 0.9 + latency * 0.1
                               else avg_latency_ms a)
                      | Raises msg \<Rightarrow>
                          success_rate a' = success_rate a * 0.9 + 0.0 * 0.1
                          \<and> avg_latency_ms a' = avg_latency_ms a))"
proof -
  define g where "g = (\<lambda>a. update_metrics a (call_agent_http w a (query request)))"
  define db' where "db' = snd (orchestrate w db request)"
  have ag: "agents db' = write_back (map g selected) (agents db)"
    unfolding db'_def g_def by (rule orchestrate_agents [OF sel commit])
  have gk: "agent_id (g y) = agent_id y" for y by (simp add: g_def)
  note ss = select_phase_selected [OF sel dist]
  have c1: "map agent_id (agents db') = map agent_id (agents db)"
  proof -
    have "agent_id (case find (\<lambda>a. agent_id a = agent_id row) (map g selected) of
                      Some a \<Rightarrow> a | None \<Rightarrow> row) = agent_id row" for row
      by (auto split: option.splits dest: find_Some_iff [THEN iffD1])
    then show ?thesis unfolding ag write_back_def by (simp add: comp_def)
  qed
  have c2: "row \<in> set (agents db')"
    if "row \<in> set (agents db)" "agent_id row \<notin> agent_id ` set selected" for row
  proof -
    have "find (\<lambda>y. agent_id y = agent_id row) (map g selected) = None"
      using that(2) by (rule find_by_key_none [of agent_id g, OF gk])
    then show ?thesis unfolding ag write_back_def using that(1) by (force simp add: image_iff)
  qed
  have c3: "g a \<in> set (agents db')" if "a \<in> set selected" for a
  proof -
    have "find (\<lambda>y. agent_id y = agent_id a) (map g selected) = Some (g a)"
      using ss that by (intro find_by_key [of agent_id g, OF gk]) simp_all
    moreover have "a \<in> set (agents db)" using ss that by auto
    ultimately show ?thesis unfolding ag write_back_def by (force simp add: image_iff)
  qed
  have c4: "total_calls (g a) = total_calls a + 1
     \<and> (case http_post w (query_url a) (JDict [(''query'', JStr (query request))]) of
          Reply data latency \<Rightarrow>
            success_rate (g a) = success_rate a * 0.9 + 1.0 * 0.1
            \<and> avg_latency_ms (g a) =
                (if latency > 0 then avg_latency_ms a * 0.9 + latency * 0.1
                 else avg_latency_ms a)
        | Raises msg \<Rightarrow>
            success_rate (g a) = success_rate a * 0.9 + 0.0 * 0.1
            \<and> avg_latency_ms (g a) = avg_latency_ms a)" for a
    unfolding g_def
    by (simp add: update_metrics_def call_status call_latency Let_def split: http_outcome.splits)
  show ?thesis
    unfolding Let_def db'_def [symmetric]
    using c1 c2 c3 c4 gk by blast
qed

theorem metrics_updated_after_dispatch_witness:
  "select_phase demo_world demo_db demo_request = Inr [agent_alpha, agent_beta]
   \<and> commit_ok demo_world 0
   \<and> distinct (map agent_id (agents demo_db))
   \<and> map agent_id (agents (snd (orchestrate demo_world demo_db demo_request)))
       = [''acme/beta'', ''acme/gamma'', ''acme/alpha'']
   \<and> agent_gamma \<in> set (agents (snd (orchestrate demo_world demo_db demo_request)))"
proof -
  have c: "commit_ok demo_world 0" by (simp add: demo_world_def)
  have g: "agent_gamma \<in> set (agents demo_db)"
          "agent_id agent_gamma \<notin> agent_id ` set [agent_alpha, agent_beta]"
    by (simp_all add: demo_db_def agent_alpha_def agent_beta_def agent_gamma_def)
  have m: "map agent_id (agents demo_db) = [''acme/beta'', ''acme/gamma'', ''acme/alpha'']"
    by (simp add: demo_db_def agent_alpha_def agent_beta_def agent_gamma_def)
  show ?thesis
    using metrics_updated_after_dispatch [OF demo_select_phase c demo_db_ids] g m
    by (simp add: Let_def demo_select_phase c demo_db_ids)
qed

text \<open>
  Claim C8, as stated (if one dispatched agent call fails, the orchestrator still
  completes the request and returns exactly N per-agent results), fails: the failed call
  is turned into an error entry, but the steps after the dispatch can still raise, and
  then the client receives no results at all. With the call to one of two selected
  agents timing out, the request fails with the database error when the commit of the
  metrics fails, and with KeyError when the card of a selected agent lists a skill
  without a name.
\<close>

theorem agent_failure_counterexample:
  "select_phase (demo_world\<lparr>commit_ok := (\<lambda>n. n \<noteq> 0)\<rparr>) demo_db demo_request
     = Inr [agent_alpha, agent_beta]
   \<and> http_post (demo_world\<lparr>commit_ok := (\<lambda>n. n \<noteq> 0)\<rparr>) (query_url agent_beta)
         (JDict [(''query'', JStr (query demo_request))]) = Raises ''timed out''
   \<and> fst (orchestrate (demo_world\<lparr>commit_ok := (\<lambda>n. n \<noteq> 0)\<rparr>) demo_db demo_request)
       = Inl DatabaseError
   \<and> select_phase demo_world delta_db demo_request = Inr [agent_alpha, agent_delta]
   \<and> http_post demo_world (query_url agent_delta) (JDict [(''query'', JStr (query demo_request))])
       = Raises ''timed out''
   \<and> commit_ok demo_world 0 \<and> commit_ok demo_world 1
   \<and> fst (orchestrate demo_world delta_db demo_request) = Inl KeyError"
proof -
  have c: "commit_ok demo_world 0" "commit_ok demo_world 1" by (simp_all add: demo_world_def)
  have a: "fst (orchestrate (demo_world\<lparr>commit_ok := (\<lambda>n. n \<noteq> 0)\<rparr>) demo_db demo_request)
             = Inl DatabaseError"
    by (simp add: demo_select_phase orchestrate_def serve_def Let_def)
  have b: "fst (orchestrate demo_world delta_db demo_request) = Inl KeyError"
    by (rule orchestrate_response_raises [OF delta_select_phase c delta_infos])
  show ?thesis
    using a b c by (simp add: demo_select_phase delta_select_phase demo_urls demo_posts)
qed

text \<open>
  Claim C8, amended: for a request whose selection phase yields N agents, the request
  runs to its response exactly when both commits succeed and the cards of the selected
  agents list well-formed skills; the outcomes of the agent calls play no part in that.
  Whenever it runs to its response, the response holds exactly N results in selection
  order; the result of an agent whose HTTP call raised (connection error, timeout,
  non-2xx status) is an error entry with status "error" and the exception text, the
  result of an agent that answered is a success entry with its data and latency; and
  replacing the HTTP outcomes of some agents by any others still completes the request
  and leaves the result of every agent whose own outcome is the same unchanged.
\<close>

theorem dispatch_failure_isolated:
  assumes sel: "select_phase w db request = Inr selected"
  shows "((\<exists>resp. fst (orchestrate w db request) = Inr resp)
            \<longleftrightarrow> commit_ok w 0 \<and> commit_ok w 1
                \<and> (\<exists>infos. selected_agents_info selected = Inr infos))
       \<and> (\<forall>resp. fst (orchestrate w db request) = Inr resp \<longrightarrow>
             length (resp_results resp) = length selected
           \<and> (\<forall>i < length selected.
                 case http_post w (query_url (selected ! i)) (JDict [(''query'', JStr (query request))]) of
                   Raises msg \<Rightarrow>
                     resp_results resp ! i =
                       [(''agent_id'', S (agent_id (selected ! i))),
                        (''agent_name'', S (name (selected ! i))),
                        (''status'', S ''error''), (''error'', S msg), (''latency_ms'', F 0)]
                 | Reply data latency \<Rightarrow>
                     resp_results resp ! i =
                       [(''agent_id'', S (agent_id (selected ! i))),
                        (''agent_name'', S (name (selected ! i))),
                        (''status'', S ''success''), (''latency_ms'', F latency),
                        (''result'', J data)])
           \<and> (\<forall>post. \<exists>resp'.
                 fst (orchestrate (w\<lparr>http_post := post\<rparr>) db request) = Inr resp'
                 \<and> length (resp_results resp') = length selected
                 \<and> (\<forall>j < length selected.
                       post (query_url (selected ! j)) (JDict [(''query'', JStr (query request))])
                         = http_post w (query_url (selected ! j))
                             (JDict [(''query'', JStr (query request))])
                       \<longrightarrow> resp_results resp' ! j = resp_results resp ! j)))"
proof (rule conjI)
  show "(\<exists>resp. fst (orchestrate w db request) = Inr resp)
          \<longleftrightarrow> commit_ok w 0 \<and> commit_ok w 1
              \<and> (\<exists>infos. selected_agents_info selected = Inr infos)"
    by (rule orchestrate_completes [OF sel])
next
  have rest: "length (resp_results resp) = length selected
           \<and> (\<forall>i < length selected.
                 case http_post w (query_url (selected ! i)) (JDict [(''query'', JStr (query request))]) of
                   Raises msg \<Rightarrow>
                     resp_results resp ! i =
                       [(''agent_id'', S (agent_id (selected ! i))),
                        (''agent_name'', S (name (selected ! i))),
                        (''status'', S ''error''), (''error'', S msg), (''latency_ms'', F 0)]
                 | Reply data latency \<Rightarrow>
                     resp_results resp ! i =
                       [(''agent_id'', S (agent_id (selected ! i))),
                        (''agent_name'', S (name (selected ! i))),
                        (''status'', S ''success''), (''latency_ms'', F latency),
                        (''result'', J data)])
           \<and> (\<forall>post. \<exists>resp'.
                 fst (orchestrate (w\<lparr>http_post := post\<rparr>) db request) = Inr resp'
                 \<and> length (resp_results resp') = length selected
                 \<and> (\<forall>j < length selected.
                       post (query_url (selected ! j)) (JDict [(''query'', JStr (query request))])
                         = http_post w (query_url (selected ! j))
                             (JDict [(''query'', JStr (query request))])
                       \<longrightarrow> resp_results resp' ! j = resp_results resp ! j))"
    if ran: "fst (orchestrate w db request) = Inr resp" for resp
  proof -
    obtain infos where c0: "commit_ok w 0" and c1: "commit_ok w 1"
      and info: "selected_agents_info selected = Inr infos"
      using ran orchestrate_completes [OF sel] by blast
    note r = orchestrate_response [OF sel c0 c1 info]
    have r': "fst (orchestrate (w\<lparr>http_post := post\<rparr>) db request) =
       Inr \<lparr>resp_query = query request, resp_selected_agents = infos,
            resp_results = map (\<lambda>a. call_agent_http (w\<lparr>http_post := post\<rparr>) a (query request)) selected,
            resp_summary = generate_summary (query request)
               (map (\<lambda>a. call_agent_http (w\<lparr>http_post := post\<rparr>) a (query request)) selected),
            resp_latency_ms = elapsed_ms w\<rparr>" for post
      using orchestrate_response [of "w\<lparr>http_post := post\<rparr>" db request selected infos]
        sel c0 c1 info
      by simp
    have resp: "resp =
       \<lparr>resp_query = query request, resp_selected_agents = infos,
        resp_results = map (\<lambda>a. call_agent_http w a (query request)) selected,
        resp_summary = generate_summary (query request)
                         (map (\<lambda>a. call_agent_http w a (query request)) selected),
        resp_latency_ms = elapsed_ms w\<rparr>"
      using ran r by simp
    show ?thesis
      unfolding r' resp
      by (auto simp add: call_agent_http_def Let_def split: http_outcome.splits)
  qed
  then show "\<forall>resp. fst (orchestrate w db request) = Inr resp \<longrightarrow>
             length (resp_results resp) = length selected
           \<and> (\<forall>i < length selected.
                 case http_post w (query_url (selected ! i)) (JDict [(''query'', JStr (query request))]) of
                   Raises msg \<Rightarrow>
                     resp_results resp ! i =
                       [(''agent_id'', S (agent_id (selected ! i))),
                        (''agent_name'', S (name (selected ! i))),
                        (''status'', S ''error''), (''error'', S msg), (''latency_ms'', F 0)]
                 | Reply data latency \<Rightarrow>
                     resp_results resp ! i =
                       [(''agent_id'', S (agent_id (selected ! i))),
                        (''agent_name'', S (name (selected ! i))),
                        (''status'', S ''success''), (''latency_ms'', F latency),
                        (''result'', J data)])
           \<and> (\<forall>post. \<exists>resp'.
                 fst (orchestrate (w\<lparr>http_post := post\<rparr>) db request) = Inr resp'
                 \<and> length (resp_results resp') = length selected
                 \<and> (\<forall>j < length selected.
                       post (query_url (selected ! j)) (JDict [(''query'', JStr (query request))])
                         = http_post w (query_url (selected ! j))
                             (JDict [(''query'', JStr (query request))])
                       \<longrightarrow> resp_results resp' ! j = resp_results resp ! j))"
    by (intro allI impI)
qed

theorem dispatch_failure_isolated_witness:
  "select_phase demo_world demo_db demo_request = Inr [agent_alpha, agent_beta]
   \<and> commit_ok demo_world 0 \<and> commit_ok demo_world 1
   \<and> (\<exists>infos. selected_agents_info [agent_alpha, agent_beta] = Inr infos)
   \<and> (\<exists>resp. fst (orchestrate demo_world demo_db demo_request) = Inr resp
         \<and> length (resp_results resp) = 2
         \<and> map_of (resp_results resp ! 0) ''status'' = Some (S ''success'')
         \<and> map_of (resp_results resp ! 1) ''status'' = Some (S ''error'')
         \<and> map_of (resp_results resp ! 1) ''error'' = Some (S ''timed out'')
         \<and> (\<exists>resp'. fst (orchestrate (demo_world\<lparr>http_post := (\<lambda>u payload. Raises ''timed out'')\<rparr>)
                              demo_db demo_request) = Inr resp'
                 \<and> length (resp_results resp') = 2
                 \<and> resp_results resp' ! 1 = resp_results resp ! 1))"
proof -
  have c: "commit_ok demo_world 0" "commit_ok demo_world 1" by (simp_all add: demo_world_def)
  note t = dispatch_failure_isolated [OF demo_select_phase]
  have "\<exists>resp. fst (orchestrate demo_world demo_db demo_request) = Inr resp"
    using t c demo_infos by blast
  then obtain resp where resp: "fst (orchestrate demo_world demo_db demo_request) = Inr resp" ..
  have len: "length (resp_results resp) = length [agent_alpha, agent_beta]"
    and each: "\<forall>i < length [agent_alpha, agent_beta].
                 case http_post demo_world (query_url ([agent_alpha, agent_beta] ! i))
                        (JDict [(''query'', JStr (query demo_request))]) of
                   Raises msg \<Rightarrow>
                     resp_results resp ! i =
                       [(''agent_id'', S (agent_id ([agent_alpha, agent_beta] ! i))),
                        (''agent_name'', S (name ([agent_alpha, agent_beta] ! i))),
                        (''status'', S ''error''), (''error'', S msg), (''latency_ms'', F 0)]
                 | Reply data latency \<Rightarrow>
                     resp_results resp ! i =
                       [(''agent_id'', S (agent_id ([agent_alpha, agent_beta] ! i))),
                        (''agent_name'', S (name ([agent_alpha, agent_beta] ! i))),
                        (''status'', S ''success''), (''latency_ms'', F latency),
                        (''result'', J data)]"
    and other: "\<forall>post. \<exists>resp'.
                 fst (orchestrate (demo_world\<lparr>http_post := post\<rparr>) demo_db demo_request) = Inr resp'
                 \<and> length (resp_results resp') = length [agent_alpha, agent_beta]
                 \<and> (\<forall>j < length [agent_alpha, agent_beta].
                       post (query_url ([agent_alpha, agent_beta] ! j))
                            (JDict [(''query'', JStr (query demo_request))])
                         = http_post demo_world (query_url ([agent_alpha, agent_beta] ! j))
                             (JDict [(''query'', JStr (query demo_request))])
                       \<longrightarrow> resp_results resp' ! j = resp_results resp ! j)"
    using t resp by blast+
  have s0: "map_of (resp_results resp ! 0) ''status'' = Some (S ''success'')"
    using each [rule_format, of 0] by (simp add: demo_urls demo_posts)
  have s1: "map_of (resp_results resp ! 1) ''status'' = Some (S ''error'')
            \<and> map_of (resp_results resp ! 1) ''error'' = Some (S ''timed out'')"
    using each [rule_format, of 1] by (simp add: demo_urls demo_posts)
  obtain resp' where resp':
      "fst (orchestrate (demo_world\<lparr>http_post := (\<lambda>u payload. Raises ''timed out'')\<rparr>)
              demo_db demo_request) = Inr resp'"
      "length (resp_results resp') = length [agent_alpha, agent_beta]"
      "\<forall>j < length [agent_alpha, agent_beta].
          (\<lambda>u payload. Raises ''timed out'') (query_url ([agent_alpha, agent_beta] ! j))
               (JDict [(''query'', JStr (query demo_request))])
            = http_post demo_world (query_url ([agent_alpha, agent_beta] ! j))
                (JDict [(''query'', JStr (query demo_request))])
          \<longrightarrow> resp_results resp' ! j = resp_results resp ! j"
    using other [rule_format, of "\<lambda>u payload. Raises ''timed out''"] by blast
  have s2: "resp_results resp' ! 1 = resp_results resp ! 1"
    using resp'(3) [rule_format, of 1] by (simp add: demo_urls demo_posts)
  show ?thesis
    using resp len s0 s1 resp'(1,2) s2 c demo_select_phase demo_infos by auto
qed

text \<open>
  Claim C9, as stated (a failure while persisting the metric updates or the log entry
  does not fail the request), fails: neither \<^verbatim>\<open>session.commit()\<close> is inside a
  \<^verbatim>\<open>try\<close>, so when the commit of the log entry raises, the exception leaves the handler
  and the client receives no response.
\<close>

theorem log_commit_failure_counterexample:
  "select_phase (demo_world\<lparr>commit_ok := (\<lambda>n. n = 0)\<rparr>) demo_db demo_request
     = Inr [agent_alpha, agent_beta]
   \<and> fst (orchestrate (demo_world\<lparr>commit_ok := (\<lambda>n. n = 0)\<rparr>) demo_db demo_request)
       = Inl DatabaseError"
  by (simp add: demo_select_phase orchestrate_def serve_def Let_def)

text \<open>
  Claim C9, amended: persistence is on the critical path. For a request that reaches the
  aggregate phase, a failure of the metric commit fails the request with nothing
  written; a failure of the log commit fails the request after the metric updates of
  every selected agent were written to the directory and with no log entry added; the
  client receives the aggregated response only if both commits succeed.
\<close>

theorem persistence_failure_propagates:
  assumes "select_phase w db request = Inr selected"
  shows "(\<not> commit_ok w 0 \<longrightarrow> orchestrate w db request = (Inl DatabaseError, db))
       \<and> (commit_ok w 0 \<and> \<not> commit_ok w 1 \<longrightarrow>
            fst (orchestrate w db request) = Inl DatabaseError
            \<and> logs (snd (orchestrate w db request)) = logs db
            \<and> agents (snd (orchestrate w db request))
                = write_back
                    (map (\<lambda>a. update_metrics a (call_agent_http w a (query request))) selected)
                    (agents db))
       \<and> (\<forall>resp. fst (orchestrate w db request) = Inr resp \<longrightarrow> commit_ok w 0 \<and> commit_ok w 1)"
  using assms by (auto simp add: orchestrate_def serve_def Let_def changed_eq)

theorem persistence_failure_propagates_witness:
  "select_phase (demo_world\<lparr>commit_ok := (\<lambda>n. False)\<rparr>) demo_db demo_request
     = Inr [agent_alpha, agent_beta]
   \<and> \<not> commit_ok (demo_world\<lparr>commit_ok := (\<lambda>n. False)\<rparr>) 0
   \<and> orchestrate (demo_world\<lparr>commit_ok := (\<lambda>n. False)\<rparr>) demo_db demo_request
       = (Inl DatabaseError, demo_db)
   \<and> select_phase (demo_world\<lparr>commit_ok := (\<lambda>n. n = 0)\<rparr>) demo_db demo_request
       = Inr [agent_alpha, agent_beta]
   \<and> commit_ok (demo_world\<lparr>commit_ok := (\<lambda>n. n = 0)\<rparr>) 0
   \<and> \<not> commit_ok (demo_world\<lparr>commit_ok := (\<lambda>n. n = 0)\<rparr>) 1
   \<and> fst (orchestrate (demo_world\<lparr>commit_ok := (\<lambda>n. n = 0)\<rparr>) demo_db demo_request)
       = Inl DatabaseError
   \<and> logs (snd (orchestrate (demo_world\<lparr>commit_ok := (\<lambda>n. n = 0)\<rparr>) demo_db demo_request)) = []
   \<and> agents (snd (orchestrate (demo_world\<lparr>commit_ok := (\<lambda>n. n = 0)\<rparr>) demo_db demo_request))
       = [agent_beta\<lparr>total_calls := 10, success_rate := 9/20\<rparr>,
          agent_gamma,
          agent_alpha\<lparr>total_calls := 1, avg_latency_ms := 12\<rparr>]"
proof -
  have s: "select_phase (demo_world\<lparr>commit_ok := (\<lambda>n. False)\<rparr>) demo_db demo_request
             = Inr [agent_alpha, agent_beta]"
          "select_phase (demo_world\<lparr>commit_ok := (\<lambda>n. n = 0)\<rparr>) demo_db demo_request
             = Inr [agent_alpha, agent_beta]"
    by (simp_all add: demo_select_phase)
  have c: "\<not> commit_ok (demo_world\<lparr>commit_ok := (\<lambda>n. False)\<rparr>) 0"
          "commit_ok (demo_world\<lparr>commit_ok := (\<lambda>n. n = 0)\<rparr>) 0"
          "\<not> commit_ok (demo_world\<lparr>commit_ok := (\<lambda>n. n = 0)\<rparr>) 1"
    by simp_all
  have m: "orchestrate (demo_world\<lparr>commit_ok := (\<lambda>n. False)\<rparr>) demo_db demo_request
             = (Inl DatabaseError, demo_db)"
    using persistence_failure_propagates [OF s(1)] c(1) by blast
  have f: "fst (orchestrate (demo_world\<lparr>commit_ok := (\<lambda>n. n = 0)\<rparr>) demo_db demo_request)
             = Inl DatabaseError"
    and lg: "logs (snd (orchestrate (demo_world\<lparr>commit_ok := (\<lambda>n. n = 0)\<rparr>) demo_db demo_request))
               = logs demo_db"
    and ag: "agents (snd (orchestrate (demo_world\<lparr>commit_ok := (\<lambda>n. n = 0)\<rparr>) demo_db demo_request))
               = write_back
                   (map (\<lambda>a. update_metrics a
                             (call_agent_http (demo_world\<lparr>commit_ok := (\<lambda>n. n = 0)\<rparr>) a
                                (query demo_request)))
                      [agent_alpha, agent_beta])
                   (agents demo_db)"
    using persistence_failure_propagates [OF s(2)] c(2,3) by blast+
  have lg': "logs (snd (orchestrate (demo_world\<lparr>commit_ok := (\<lambda>n. n = 0)\<rparr>) demo_db demo_request)) = []"
    unfolding lg by (simp add: demo_db_def)
  have ag': "agents (snd (orchestrate (demo_world\<lparr>commit_ok := (\<lambda>n. n = 0)\<rparr>) demo_db demo_request))
       = [agent_beta\<lparr>total_calls := 10, success_rate := 9/20\<rparr>,
          agent_gamma,
          agent_alpha\<lparr>total_calls := 1, avg_latency_ms := 12\<rparr>]"
    unfolding ag call_agent_http_commit_ok by (rule demo_write_back)
  show ?thesis
    using s c m f lg' ag' by (intro conjI)
qed


section \<open>Properties of the identity module\<close>

subsection \<open>Base64 decoding inverts encoding\<close>

lemma index_of_nth:
  "distinct xs \<Longrightarrow> i < length xs \<Longrightarrow> index_of (xs ! i) xs = Some i"
proof (induction xs arbitrary: i)
  case Nil
  then show ?case by simp
next
  case (Cons x xs)
  show ?case
  proof (cases i)
    case 0
    then show ?thesis by simp
  next
    case (Suc j)
    then have "xs ! j \<in> set xs" using Cons.prems by simp
    then have "xs ! j \<noteq> x" using Cons.prems by auto
    then show ?thesis using Suc Cons by simp
  qed
qed

lemma b64_alphabet_length: "length b64_alphabet = 64"
  by (simp add: b64_alphabet_def)

lemma b64_alphabet_distinct: "distinct b64_alphabet"
  by (simp add: b64_alphabet_def)

lemma b64_alphabet_excludes:
  "CHR ''='' \<notin> set b64_alphabet" "CHR ''-'' \<notin> set b64_alphabet"
  "CHR ''_'' \<notin> set b64_alphabet" "CHR '':'' \<notin> set b64_alphabet"
  by (simp_all add: b64_alphabet_def)

lemma b64_alphabet_ascii: "\<forall>c \<in> set b64_alphabet. (of_char c :: nat) < 128"
  by (simp add: b64_alphabet_def)

lemma b64_char_in: "n < 64 \<Longrightarrow> b64_char n \<in> set b64_alphabet"
  by (simp add: b64_char_def b64_alphabet_length)

lemma b64_index_char: "n < 64 \<Longrightarrow> b64_index (b64_char n) = Some n"
  unfolding b64_index_def b64_char_def
  by (rule index_of_nth [OF b64_alphabet_distinct]) (simp add: b64_alphabet_length)

lemma b64_char_not_pad: "n < 64 \<Longrightarrow> b64_char n \<noteq> CHR ''=''"
  using b64_char_in b64_alphabet_excludes(1) by metis


lemma a2b_digit:
  assumes "n < 64"
  shows "a2b_base64_from 0 l p (b64_char n # rest) = a2b_base64_from (Suc 0) n 0 rest"
    and "a2b_base64_from (Suc 0) l p (b64_char n # rest)
           = emit (of_nat (l * 4 + n div 16)) (a2b_base64_from 2 (n mod 16) 0 rest)"
    and "a2b_base64_from 2 l p (b64_char n # rest)
           = emit (of_nat (l * 16 + n div 4)) (a2b_base64_from 3 (n mod 4) 0 rest)"
    and "a2b_base64_from 3 l p (b64_char n # rest)
           = emit (of_nat (l * 64 + n)) (a2b_base64_from 0 0 0 rest)"
  using b64_index_char [OF assms] b64_char_not_pad [OF assms] by simp_all

lemma byte_bound: "unat (a :: byte) < 256"
  using unsigned_less [of a, where ?'a = nat] by simp

lemma regroup:
  fixes x y z :: nat
  assumes "y < 256" and "z < 256"
  shows "(x div 4) * 4 + (x mod 4 * 16 + y div 16) div 16 = x"
    and "(x mod 4 * 16 + y div 16) mod 16 * 16 + (y mod 16 * 4 + z div 64) div 4 = y"
    and "(y mod 16 * 4 + z div 64) mod 4 * 64 + z mod 64 = z"
    and "x div 4 * 4 + x mod 4 * 16 div 16 = x"
    and "(x mod 4 * 16 + y div 16) mod 16 * 16 + y mod 16 * 4 div 4 = y"
proof -
  have q: "y div 16 < 16" "z div 64 < 4" using assms by simp_all
  have a: "(x mod 4 * 16 + y div 16) div 16 = x mod 4" using q(1) by simp
  have b: "(x mod 4 * 16 + y div 16) mod 16 = y div 16" using q(1) by simp
  have c: "(y mod 16 * 4 + z div 64) div 4 = y mod 16" using q(2) by simp
  have d: "(y mod 16 * 4 + z div 64) mod 4 = z div 64" using q(2) by simp
  show "(x div 4) * 4 + (x mod 4 * 16 + y div 16) div 16 = x" unfolding a by simp
  show "(x mod 4 * 16 + y div 16) mod 16 * 16 + (y mod 16 * 4 + z div 64) div 4 = y"
    unfolding b c by simp
  show "(y mod 16 * 4 + z div 64) mod 4 * 64 + z mod 64 = z" unfolding d by simp
  show "x div 4 * 4 + x mod 4 * 16 div 16 = x" by simp
  show "(x mod 4 * 16 + y div 16) mod 16 * 16 + y mod 16 * 4 div 4 = y" unfolding b by simp
qed


lemma digit_bounds:
  fixes x y z :: nat
  assumes "x < 256" and "y < 256" and "z < 256"
  shows "x div 4 < 64" and "x mod 4 * 16 < 64" and "x mod 4 * 16 + y div 16 < 64"
    and "y mod 16 * 4 < 64" and "y mod 16 * 4 + z div 64 < 64" and "z mod 64 < 64"
proof -
  have q: "y div 16 < 16" "z div 64 < 4" "x mod 4 < 4" "y mod 16 < 16"
    using assms by simp_all
  show "x div 4 < 64" using assms by simp
  show "x mod 4 * 16 < 64" using q by simp
  show "x mod 4 * 16 + y div 16 < 64" using q by linarith
  show "y mod 16 * 4 < 64" using q by simp
  show "y mod 16 * 4 + z div 64 < 64" using q by linarith
  show "z mod 64 < 64" by simp
qed

lemma a2b_pad:
  "a2b_base64_from 2 l 0 (CHR ''='' # rest) = a2b_base64_from 2 l (Suc 0) rest"
  "a2b_base64_from 2 l (Suc 0) (CHR ''='' # rest) = Inr []"
  "a2b_base64_from 3 l 0 (CHR ''='' # rest) = Inr []"
  by simp_all

lemma decode_group:
  assumes "n1 < 64" "n2 < 64" "n3 < 64" "n4 < 64"
  shows "a2b_base64_from 0 l p (b64_char n1 # b64_char n2 # b64_char n3 # b64_char n4 # rest)
     = emit (of_nat (n1 * 4 + n2 div 16))
         (emit (of_nat (n2 mod 16 * 16 + n3 div 4))
           (emit (of_nat (n3 mod 4 * 64 + n4)) (a2b_base64_from 0 0 0 rest)))"
  by (simp only: a2b_digit(1) [OF assms(1)] a2b_digit(2) [OF assms(2)]
      a2b_digit(3) [OF assms(3)] a2b_digit(4) [OF assms(4)])

lemma decode_tail1:
  assumes "n1 < 64" "n2 < 64"
  shows "a2b_base64_from 0 l p [b64_char n1, b64_char n2, CHR ''='', CHR ''='']
     = emit (of_nat (n1 * 4 + n2 div 16)) (Inr [])"
  by (simp only: a2b_digit(1) [OF assms(1)] a2b_digit(2) [OF assms(2)] a2b_pad)

lemma decode_tail2:
  assumes "n1 < 64" "n2 < 64" "n3 < 64"
  shows "a2b_base64_from 0 l p [b64_char n1, b64_char n2, b64_char n3, CHR ''='']
     = emit (of_nat (n1 * 4 + n2 div 16)) (emit (of_nat (n2 mod 16 * 16 + n3 div 4)) (Inr []))"
  by (simp only: a2b_digit(1) [OF assms(1)] a2b_digit(2) [OF assms(2)]
      a2b_digit(3) [OF assms(3)] a2b_pad)

lemma emit_Inr: "emit b (Inr bs) = Inr (b # bs)"
  by (simp add: emit_def)

lemma a2b_b2a: "a2b_base64_from 0 l p (b2a_base64 bs) = Inr bs"
proof (induction bs arbitrary: l p rule: b2a_base64.induct)
  case 1
  show ?case by simp
next
  case (2 a)
  note d = digit_bounds [OF byte_bound [of a] byte_bound [of a] byte_bound [of a]]
  have "a2b_base64_from 0 l p (b2a_base64 [a])
          = emit (of_nat (unat a div 4 * 4 + unat a mod 4 * 16 div 16)) (Inr [])"
    by (simp only: b2a_base64.simps decode_tail1 [OF d(1) d(2)])
  also have "\<dots> = emit (of_nat (unat a)) (Inr [])"
    by (simp only: regroup(4) [OF byte_bound [of a] byte_bound [of a]])
  finally show ?case by (simp add: emit_Inr)
next
  case (3 a b)
  note d = digit_bounds [OF byte_bound [of a] byte_bound [of b] byte_bound [of b]]
  note r = regroup [OF byte_bound [of b] byte_bound [of b]]
  have "a2b_base64_from 0 l p (b2a_base64 [a, b])
          = emit (of_nat (unat a div 4 * 4 + (unat a mod 4 * 16 + unat b div 16) div 16))
              (emit (of_nat ((unat a mod 4 * 16 + unat b div 16) mod 16 * 16
                             + unat b mod 16 * 4 div 4)) (Inr []))"
    by (simp only: b2a_base64.simps decode_tail2 [OF d(1) d(3) d(4)])
  also have "\<dots> = emit (of_nat (unat a)) (emit (of_nat (unat b)) (Inr []))"
    by (simp only: r(1) r(5))
  finally show ?case by (simp add: emit_Inr)
next
  case (4 a b c rest)
  note d = digit_bounds [OF byte_bound [of a] byte_bound [of b] byte_bound [of c]]
  note r = regroup [OF byte_bound [of b] byte_bound [of c]]
  have "a2b_base64_from 0 l p (b2a_base64 (a # b # c # rest))
          = emit (of_nat (unat a div 4 * 4 + (unat a mod 4 * 16 + unat b div 16) div 16))
              (emit (of_nat ((unat a mod 4 * 16 + unat b div 16) mod 16 * 16
                             + (unat b mod 16 * 4 + unat c div 64) div 4))
                (emit (of_nat ((unat b mod 16 * 4 + unat c div 64) mod 4 * 64 + unat c mod 64))
                  (a2b_base64_from 0 0 0 (b2a_base64 rest))))"
    by (simp only: b2a_base64.simps append.simps decode_group [OF d(1) d(3) d(5) d(6)])
  also have "\<dots> = emit (of_nat (unat a)) (emit (of_nat (unat b)) (emit (of_nat (unat c)) (Inr rest)))"
    by (simp only: r(1) r(2) r(3) "4.IH")
  finally show ?case by (simp add: emit_Inr)
qed


lemma b2a_shape:
  "\<exists>body k. b2a_base64 bs = body @ replicate k CHR ''=''
            \<and> set body \<subseteq> set b64_alphabet \<and> k \<le> 2 \<and> (length body + k) mod 4 = 0"
proof (induction bs rule: b2a_base64.induct)
  case 1
  have "b2a_base64 [] = [] @ replicate 0 CHR ''=''" by simp
  then show ?case by (intro exI [of _ "[]"] exI [of _ 0]) simp
next
  case (2 a)
  note d = digit_bounds [OF byte_bound [of a] byte_bound [of a] byte_bound [of a]]
  show ?case
    by (intro exI [of _ "[b64_char (unat a div 4), b64_char (unat a mod 4 * 16)]"] exI [of _ 2])
       (simp add: b64_char_in d numeral_2_eq_2)
next
  case (3 a b)
  note d = digit_bounds [OF byte_bound [of a] byte_bound [of b] byte_bound [of b]]
  show ?case
    by (intro exI [of _ "[b64_char (unat a div 4), b64_char (unat a mod 4 * 16 + unat b div 16),
                          b64_char (unat b mod 16 * 4)]"] exI [of _ 1])
       (simp add: b64_char_in d)
next
  case (4 a b c rest)
  note d = digit_bounds [OF byte_bound [of a] byte_bound [of b] byte_bound [of c]]
  from 4 obtain body k where b: "b2a_base64 rest = body @ replicate k CHR ''=''"
    "set body \<subseteq> set b64_alphabet" "k \<le> 2" "(length body + k) mod 4 = 0"
    by auto
  define four where "four = [b64_char (unat a div 4), b64_char (unat a mod 4 * 16 + unat b div 16),
                          b64_char (unat b mod 16 * 4 + unat c div 64), b64_char (unat c mod 64)]"
  have e: "b2a_base64 (a # b # c # rest) = (four @ body) @ replicate k CHR ''=''"
    using b(1) by (simp add: four_def)
  have "set four \<subseteq> set b64_alphabet"
    using b64_char_in [OF d(1)] b64_char_in [OF d(3)] b64_char_in [OF d(5)] b64_char_in [OF d(6)]
    by (simp add: four_def)
  then have s: "set (four @ body) \<subseteq> set b64_alphabet" using b(2) by simp
  have "length (four @ body) + k = length body + k + 4" by (simp add: four_def)
  then have l: "(length (four @ body) + k) mod 4 = 0" using b(4) by (simp only: mod_add_self2)
  show ?case
    using e s b(3) l by (intro exI [of _ "four @ body"] exI [of _ k] conjI)
qed

lemma urlsafe_translation_inverse:
  "c \<in> set b64_alphabet \<or> c = CHR ''='' \<Longrightarrow>
   urlsafe_decode_translation (urlsafe_encode_translation c) = c"
  using b64_alphabet_excludes
  by (auto simp add: urlsafe_decode_translation_def urlsafe_encode_translation_def)

lemma urlsafe_encode_translation_char:
  "c \<in> set b64_alphabet \<Longrightarrow>
   urlsafe_encode_translation c \<noteq> CHR ''='' \<and> urlsafe_encode_translation c \<noteq> CHR '':''
   \<and> (of_char (urlsafe_encode_translation c) :: nat) < 128"
  using b64_alphabet_excludes b64_alphabet_ascii
  by (auto simp add: urlsafe_encode_translation_def)


lemma rstrip_pads: "c \<notin> set body \<Longrightarrow> rstrip c (body @ replicate k c) = body"
proof -
  assume c: "c \<notin> set body"
  have "dropWhile (\<lambda>x. x = c) (replicate k c @ rev body) = dropWhile (\<lambda>x. x = c) (rev body)"
    by (rule dropWhile_append2) simp
  also have "\<dots> = rev body"
    using c by (cases "rev body") auto
  finally show ?thesis by (simp add: rstrip_def)
qed

lemma add_padding_pads:
  assumes "k \<le> 2" and "(length body + k) mod 4 = 0"
  shows "add_padding body = body @ replicate k CHR ''=''"
proof -
  consider "k = 0" | "k = 1" | "k = 2" using assms(1) by linarith
  then show ?thesis
  proof cases
    case 1
    then have "length body mod 4 = 0" using assms(2) by simp
    then show ?thesis using 1 by (simp add: add_padding_def)
  next
    case 2
    then have "length body mod 4 = 3" using assms(2) by presburger
    then show ?thesis using 2 by (simp add: add_padding_def)
  next
    case 3
    then have "length body mod 4 = 2" using assms(2) by presburger
    then show ?thesis using 3 by (simp add: add_padding_def numeral_2_eq_2)
  qed
qed

lemma last_segment_did:
  "CHR '':'' \<notin> set body \<Longrightarrow> last_segment (''did:poros:ed25519:'' @ body) = body"
proof -
  assume c: "CHR '':'' \<notin> set body"
  have "takeWhile (\<lambda>x. x \<noteq> CHR '':'') (rev body @ rev ''did:poros:ed25519:'')
          = rev body @ takeWhile (\<lambda>x. x \<noteq> CHR '':'') (rev ''did:poros:ed25519:'')"
    using c by (intro takeWhile_append2) auto
  also have "\<dots> = rev body" by simp
  finally show ?thesis by (simp add: last_segment_def)
qed

lemma startswith_append: "startswith (p @ s) p"
  by (induction p) simp_all

lemma is_ascii_b2a: "is_ascii (b2a_base64 bs)"
proof -
  obtain body k where b: "b2a_base64 bs = body @ replicate k CHR ''=''"
    "set body \<subseteq> set b64_alphabet"
    using b2a_shape [of bs] by auto
  show ?thesis
    unfolding is_ascii_def b using b(2) b64_alphabet_ascii by auto
qed

lemma b64decode_b64encode: "b64decode (b64encode bs) = Inr bs"
  by (simp only: b64decode_def b64encode_def is_ascii_b2a a2b_base64_def a2b_b2a
      simp_thms if_False)

lemma b64encode_inject: "b64encode xs = b64encode ys \<Longrightarrow> xs = ys"
  by (metis b64decode_b64encode sum.inject(2))

lemma did_key_roundtrip:
  "urlsafe_b64decode (add_padding (last_segment
      (''did:poros:ed25519:'' @ rstrip CHR ''='' (urlsafe_b64encode bs)))) = Inr bs"
proof -
  obtain body k where b: "b2a_base64 bs = body @ replicate k CHR ''=''"
    "set body \<subseteq> set b64_alphabet" "k \<le> 2" "(length body + k) mod 4 = 0"
    using b2a_shape [of bs] by auto
  define ub where "ub = map urlsafe_encode_translation body"
  have enc: "urlsafe_b64encode bs = ub @ replicate k CHR ''=''"
    by (simp add: urlsafe_b64encode_def b64encode_def b ub_def urlsafe_encode_translation_def)
  have ub_all: "c \<noteq> CHR ''='' \<and> c \<noteq> CHR '':'' \<and> (of_char c :: nat) < 128" if "c \<in> set ub" for c
  proof -
    from that obtain x where x: "x \<in> set body" "c = urlsafe_encode_translation x"
      by (auto simp add: ub_def)
    then have "x \<in> set b64_alphabet" using b(2) by auto
    then show ?thesis using urlsafe_encode_translation_char [of x] x(2) by simp
  qed
  have ub: "CHR ''='' \<notin> set ub" "CHR '':'' \<notin> set ub" "\<forall>c \<in> set ub. (of_char c :: nat) < 128"
    using ub_all by blast+
  have len: "length ub = length body" by (simp add: ub_def)
  have pad: "add_padding ub = ub @ replicate k CHR ''=''"
    using b(3) b(4) unfolding len [symmetric] by (rule add_padding_pads)
  have "add_padding (last_segment (''did:poros:ed25519:'' @ rstrip CHR ''='' (urlsafe_b64encode bs)))
          = urlsafe_b64encode bs"
    unfolding enc rstrip_pads [OF ub(1)] last_segment_did [OF ub(2)] by (rule pad)
  moreover have "is_ascii (urlsafe_b64encode bs)"
    unfolding enc is_ascii_def using ub(3) by auto
  moreover have "map urlsafe_decode_translation (urlsafe_b64encode bs) = b2a_base64 bs"
  proof -
    have "\<forall>c \<in> set (b2a_base64 bs). c \<in> set b64_alphabet \<or> c = CHR ''=''"
      unfolding b using b(2) by auto
    then have "map (urlsafe_decode_translation \<circ> urlsafe_encode_translation) (b2a_base64 bs)
                 = b2a_base64 bs"
      by (intro map_idI) (simp add: urlsafe_translation_inverse)
    then show ?thesis by (simp add: urlsafe_b64encode_def b64encode_def)
  qed
  ultimately show ?thesis
    by (simp only: urlsafe_b64decode_def b64decode_def is_ascii_b2a a2b_base64_def a2b_b2a
        simp_thms if_False if_True)
qed

subsection \<open>Sample evaluations of the identity module\<close>

lemma toy_dumps:
  "dumps (JDict unsigned_card) = Inr unsigned_card_json"
  "dumps (JDict signed_card) = Inr signed_card_json"
  "dumps (JDict (without_signature signed_card)) = Inr unsigned_card_json"
  by code_simp+

lemma toy_load:
  "ed_load_pem toy_ed25519 (utf8_encode (ed_private_pem toy_ed25519 toy_key)) = Inr toy_key"
  by (simp add: toy_ed25519_def toy_key_def utf8_encode_def)

lemma toy_did:
  "fst (generate_keypair toy_ed25519 toy_key)
     = ''did:poros:ed25519:AQIDBAUGBwgJCgsMDQ4PEBESExQVFhcYGRobHB0eHyA''"
  by (simp add: generate_keypair_def toy_ed25519_def toy_key_def urlsafe_b64encode_def
      b64encode_def b64_char_def b64_alphabet_def urlsafe_encode_translation_def rstrip_def)

subsection \<open>Signing and verification\<close>

lemma generate_keypair_eq:
  "fst (generate_keypair lib private_key)
     = ''did:poros:ed25519:'' @ rstrip CHR ''='' (urlsafe_b64encode (ed_public_bytes lib private_key))"
  "snd (generate_keypair lib private_key) = ed_private_pem lib private_key"
  by (simp_all add: generate_keypair_def Let_def)

lemma verify_try_generated:
  assumes len: "length (ed_public_bytes lib private_key) = 32"
    and ser: "dumps (JDict agent_card_dict) = Inr canonical_json"
    and dec: "b64decode signature_b64 = Inr signature"
  shows "verify_agent_card_try lib agent_card_dict signature_b64 (fst (generate_keypair lib private_key))
     = (if ed_verify lib (ed_public_bytes lib private_key) signature (utf8_encode canonical_json)
        then Inr True else Inl InvalidSignature)"
  unfolding verify_agent_card_try_def generate_keypair_eq
  by (simp only: startswith_append did_key_roundtrip len ser dec
      simp_thms if_True if_False sum.case Let_def)

lemma verify_agent_card_cases:
  "verify_agent_card_try lib d sig did = Inr valid \<Longrightarrow> verify_agent_card out lib d sig did = Inr valid"
  "verify_agent_card_try lib d sig did = Inl InvalidSignature \<Longrightarrow>
     verify_agent_card out lib d sig did = Inr False"
  "verify_agent_card_try lib d sig did = Inl e \<Longrightarrow> e \<noteq> InvalidSignature \<Longrightarrow>
     verify_agent_card out lib d sig did = (case out of None \<Rightarrow> Inr False | Some e' \<Rightarrow> Inl e')"
  by (simp_all add: verify_agent_card_def print_def split: exn.splits option.splits)

lemma toy_sign:
  "dumps (JDict d) = Inr text \<Longrightarrow>
   sign_agent_card toy_ed25519 d (ed_private_pem toy_ed25519 toy_key)
     = Inr (b64encode (toy_key @ utf8_encode text))"
  using toy_load
  by (simp only: sign_agent_card_def sum.case Let_def) (simp add: toy_ed25519_def)

lemma utf8_encode_ascii_length: "is_ascii s \<Longrightarrow> length (utf8_encode s) = length s"
  by (induction s) (simp_all add: utf8_encode_def is_ascii_def)

lemma without_signature_idem: "without_signature (without_signature d) = without_signature d"
  by (simp add: without_signature_def)

lemma without_signature_absent:
  "''signature'' \<notin> fst ` set d \<Longrightarrow> without_signature d = d"
  unfolding without_signature_def by (rule filter_True) force

text \<open>
  While standard output can be written, \<^verbatim>\<open>verify_agent_card\<close> is fail-closed: it returns
  a boolean, and the boolean is True only when the body of the \<^verbatim>\<open>try\<close> block ran to its
  end. A DID with another prefix, and a failed cryptographic check, give False whatever
  the state of standard output.
\<close>

lemma verify_agent_card_closed_when_printing:
  "verify_agent_card None lib d sig did = Inr (verify_agent_card_try lib d sig did = Inr True)"
  by (simp add: verify_agent_card_def print_def split: sum.splits exn.splits)

lemma verify_agent_card_no_print:
  "\<not> startswith did ''did:poros:ed25519:'' \<Longrightarrow> verify_agent_card out lib d sig did = Inr False"
  "urlsafe_b64decode (add_padding (last_segment did)) = Inr public_bytes \<Longrightarrow>
   length public_bytes = 32 \<Longrightarrow>
   b64decode sig = Inr signature \<Longrightarrow>
   dumps (JDict d) = Inr canonical_json \<Longrightarrow>
   \<not> ed_verify lib public_bytes signature (utf8_encode canonical_json) \<Longrightarrow>
   verify_agent_card out lib d sig did = Inr False"
  by (simp_all add: verify_agent_card_def verify_agent_card_try_def Let_def)

lemma bad_did_segment:
  "urlsafe_b64decode (add_padding (last_segment ''did:poros:ed25519:A'')) = Inl binascii_Error"
  by (simp add: last_segment_def add_padding_def urlsafe_b64decode_def b64decode_def is_ascii_def
      a2b_base64_def urlsafe_decode_translation_def b64_index_def b64_alphabet_def
      numeral_3_eq_3)

text \<open>
  Claim C1 (\<^verbatim>\<open>verify_agent_card\<close> is fail-closed: for every record, signature and DID it
  returns a boolean and never raises, and a failed base64 decoding gives False). The code
  departs from it when the body of the \<^verbatim>\<open>try\<close> block raises anything but
  InvalidSignature while standard output cannot be written: the \<^verbatim>\<open>except Exception\<close>
  clause prints the error before it returns False, and the exception of \<^verbatim>\<open>print\<close> leaves
  the function, against the docstring ("True if signature is valid, False otherwise").
  Here the key segment of the DID is not valid base64, so that decoding it raises
  binascii.Error, and standard output is closed, so that writing to it raises ValueError.
\<close>

theorem verify_agent_card_raises:
  "startswith ''did:poros:ed25519:A'' ''did:poros:ed25519:''
   \<and> urlsafe_b64decode (add_padding (last_segment ''did:poros:ed25519:A'')) = Inl binascii_Error
   \<and> verify_agent_card (Some ValueError) toy_ed25519 unsigned_card ''c2ln'' ''did:poros:ed25519:A''
       = Inl ValueError"
  by (simp add: verify_agent_card_def verify_agent_card_try_def bad_did_segment print_def)

text \<open>
  Claim C2: for a key whose PEM export loads back to the same key, whose public key has
  32 bytes and whose signatures verify under its own public key (the contract of the
  Ed25519 library), and for every record that \<^verbatim>\<open>json.dumps\<close> serialises,
  \<^verbatim>\<open>sign_agent_card\<close> returns a signature and \<^verbatim>\<open>verify_agent_card\<close> returns True for it
  under the DID of \<^verbatim>\<open>generate_keypair\<close>: the verifier restores the padding that the DID
  drops, decodes the same public bytes and canonicalises the record as the signer did.
\<close>

theorem sign_verify_roundtrip:
  assumes load: "ed_load_pem lib (utf8_encode (ed_private_pem lib private_key)) = Inr private_key"
    and len: "length (ed_public_bytes lib private_key) = 32"
    and ser: "dumps (JDict agent_card_dict) = Inr canonical_json"
    and ok: "ed_verify lib (ed_public_bytes lib private_key)
               (ed_sign lib private_key (utf8_encode canonical_json)) (utf8_encode canonical_json)"
  shows "\<exists>signature.
           sign_agent_card lib agent_card_dict (snd (generate_keypair lib private_key)) = Inr signature
           \<and> verify_agent_card out lib agent_card_dict signature
                 (fst (generate_keypair lib private_key)) = Inr True"
proof -
  define signature where
    "signature = b64encode (ed_sign lib private_key (utf8_encode canonical_json))"
  have s: "sign_agent_card lib agent_card_dict (snd (generate_keypair lib private_key)) = Inr signature"
    by (simp only: sign_agent_card_def generate_keypair_eq ser load signature_def sum.case Let_def)
  have d: "b64decode signature = Inr (ed_sign lib private_key (utf8_encode canonical_json))"
    unfolding signature_def by (rule b64decode_b64encode)
  have "verify_agent_card_try lib agent_card_dict signature (fst (generate_keypair lib private_key))
          = Inr True"
    using verify_try_generated [OF len ser d] ok by simp
  then have "verify_agent_card out lib agent_card_dict signature
               (fst (generate_keypair lib private_key)) = Inr True"
    by (rule verify_agent_card_cases(1))
  with s show ?thesis by blast
qed

theorem sign_verify_roundtrip_witness:
  "ed_load_pem toy_ed25519 (utf8_encode (ed_private_pem toy_ed25519 toy_key)) = Inr toy_key
   \<and> length (ed_public_bytes toy_ed25519 toy_key) = 32
   \<and> dumps (JDict unsigned_card) = Inr unsigned_card_json
   \<and> ed_verify toy_ed25519 (ed_public_bytes toy_ed25519 toy_key)
         (ed_sign toy_ed25519 toy_key (utf8_encode unsigned_card_json))
         (utf8_encode unsigned_card_json)
   \<and> (\<exists>signature.
          sign_agent_card toy_ed25519 unsigned_card (snd (generate_keypair toy_ed25519 toy_key))
            = Inr signature
          \<and> verify_agent_card (Some OSError) toy_ed25519 unsigned_card signature
                ''did:poros:ed25519:AQIDBAUGBwgJCgsMDQ4PEBESExQVFhcYGRobHB0eHyA'' = Inr True)"
proof -
  have l: "length (ed_public_bytes toy_ed25519 toy_key) = 32"
    by (simp add: toy_ed25519_def toy_key_def)
  have v: "ed_verify toy_ed25519 (ed_public_bytes toy_ed25519 toy_key)
             (ed_sign toy_ed25519 toy_key (utf8_encode unsigned_card_json))
             (utf8_encode unsigned_card_json)"
    by (simp add: toy_ed25519_def)
  show ?thesis
    using sign_verify_roundtrip [OF toy_load l toy_dumps(1) v, of "Some OSError"]
      toy_load l toy_dumps(1) v
    by (simp only: toy_did simp_thms)
qed

text \<open>
  Claim C3, as stated (signing and verification strip the signature field before
  canonicalising), fails for \<^verbatim>\<open>identity.sign_agent_card\<close>: it serialises the record as
  passed, so for a record with a signature field the signed text contains that field and
  differs from the text of the record without it, and so does the signature; and
  \<^verbatim>\<open>identity.verify_agent_card\<close> accepts a signature on the record without its signature
  field and rejects the same signature on the record with it.
\<close>

theorem signature_field_counterexample:
  "map_of signed_card ''signature'' = Some (JStr ''c2ln'')
   \<and> dumps (JDict signed_card) = Inr signed_card_json
   \<and> dumps (JDict (without_signature signed_card)) = Inr unsigned_card_json
   \<and> signed_card_json \<noteq> unsigned_card_json
   \<and> sign_agent_card toy_ed25519 signed_card (ed_private_pem toy_ed25519 toy_key)
       \<noteq> sign_agent_card toy_ed25519 (without_signature signed_card)
            (ed_private_pem toy_ed25519 toy_key)
   \<and> verify_agent_card None toy_ed25519 (without_signature signed_card)
         (b64encode (toy_key @ utf8_encode unsigned_card_json))
         (fst (generate_keypair toy_ed25519 toy_key)) = Inr True
   \<and> verify_agent_card None toy_ed25519 signed_card
         (b64encode (toy_key @ utf8_encode unsigned_card_json))
         (fst (generate_keypair toy_ed25519 toy_key)) = Inr False"
proof -
  have m: "map_of signed_card ''signature'' = Some (JStr ''c2ln'')"
    by (simp add: signed_card_def unsigned_card_def)
  have a: "is_ascii signed_card_json" "is_ascii unsigned_card_json"
    by (simp_all add: is_ascii_def signed_card_json_def unsigned_card_json_def)
  have "length signed_card_json \<noteq> length unsigned_card_json"
    by (simp add: signed_card_json_def unsigned_card_json_def)
  then have n: "signed_card_json \<noteq> unsigned_card_json"
    and u: "utf8_encode unsigned_card_json \<noteq> utf8_encode signed_card_json"
    using utf8_encode_ascii_length [OF a(1)] utf8_encode_ascii_length [OF a(2)] by auto
  have "b64encode (toy_key @ utf8_encode signed_card_json)
          \<noteq> b64encode (toy_key @ utf8_encode unsigned_card_json)"
    using u b64encode_inject by fastforce
  then have s: "sign_agent_card toy_ed25519 signed_card (ed_private_pem toy_ed25519 toy_key)
       \<noteq> sign_agent_card toy_ed25519 (without_signature signed_card)
            (ed_private_pem toy_ed25519 toy_key)"
    unfolding toy_sign [OF toy_dumps(2)] toy_sign [OF toy_dumps(3)] by simp
  have l: "length (ed_public_bytes toy_ed25519 toy_key) = 32"
    by (simp add: toy_ed25519_def toy_key_def)
  note d = b64decode_b64encode [of "toy_key @ utf8_encode unsigned_card_json"]
  have "verify_agent_card_try toy_ed25519 (without_signature signed_card)
         (b64encode (toy_key @ utf8_encode unsigned_card_json))
         (fst (generate_keypair toy_ed25519 toy_key)) = Inr True"
    unfolding verify_try_generated [OF l toy_dumps(3) d] by (simp add: toy_ed25519_def)
  then have v1: "verify_agent_card None toy_ed25519 (without_signature signed_card)
         (b64encode (toy_key @ utf8_encode unsigned_card_json))
         (fst (generate_keypair toy_ed25519 toy_key)) = Inr True"
    by (rule verify_agent_card_cases(1))
  have "verify_agent_card_try toy_ed25519 signed_card
         (b64encode (toy_key @ utf8_encode unsigned_card_json))
         (fst (generate_keypair toy_ed25519 toy_key)) = Inl InvalidSignature"
    unfolding verify_try_generated [OF l toy_dumps(2) d] using u by (simp add: toy_ed25519_def)
  then have v2: "verify_agent_card None toy_ed25519 signed_card
         (b64encode (toy_key @ utf8_encode unsigned_card_json))
         (fst (generate_keypair toy_ed25519 toy_key)) = Inr False"
    by (rule verify_agent_card_cases(2))
  show ?thesis
    using m toy_dumps(2) toy_dumps(3) n s v1 v2 by (intro conjI)
qed

text \<open>
  Claim C3, amended: the signature field is removed by the callers, not by the identity
  functions. The endpoints \<^verbatim>\<open>/sign-agent-card\<close> and \<^verbatim>\<open>/verify-agent-card\<close> drop the key
  "signature" before they call \<^verbatim>\<open>sign_agent_card\<close> and \<^verbatim>\<open>verify_agent_card\<close>, so at the
  endpoints a record and the same record without its signature field give the same
  result; \<^verbatim>\<open>sign_agent_card\<close> and \<^verbatim>\<open>verify_agent_card\<close> themselves canonicalise the record
  exactly as passed, and agree with the stripped record when the record has no signature
  field.
\<close>

theorem signature_stripped_at_endpoints:
  "api_sign_agent_card lib d pem = api_sign_agent_card lib (without_signature d) pem
   \<and> api_verify_agent_card out lib d sig did
       = api_verify_agent_card out lib (without_signature d) sig did
   \<and> (''signature'' \<notin> fst ` set d \<longrightarrow>
         sign_agent_card lib (without_signature d) pem = sign_agent_card lib d pem
         \<and> verify_agent_card out lib (without_signature d) sig did
             = verify_agent_card out lib d sig did)"
  by (simp add: api_sign_agent_card_def api_verify_agent_card_def Let_def without_signature_idem
      without_signature_absent)

theorem signature_stripped_at_endpoints_witness:
  "''signature'' \<notin> fst ` set unsigned_card
   \<and> sign_agent_card toy_ed25519 (without_signature unsigned_card) (ed_private_pem toy_ed25519 toy_key)
       = sign_agent_card toy_ed25519 unsigned_card (ed_private_pem toy_ed25519 toy_key)
   \<and> api_sign_agent_card toy_ed25519 signed_card (ed_private_pem toy_ed25519 toy_key)
       = api_sign_agent_card toy_ed25519 (without_signature signed_card)
           (ed_private_pem toy_ed25519 toy_key)"
proof -
  have "''signature'' \<notin> fst ` set unsigned_card"
    by (simp add: unsigned_card_def)
  then show ?thesis
    using signature_stripped_at_endpoints [of toy_ed25519 unsigned_card "ed_private_pem toy_ed25519 toy_key"]
      signature_stripped_at_endpoints [of toy_ed25519 signed_card "ed_private_pem toy_ed25519 toy_key"]
    by blast
qed

end
